theory Spec2Isabelle
  imports Main "HOL-Library.Sublist" "HOL-Library.Log_Nat" "HOL-Library.Multiset"
begin

section \<open>Text primitives used by the pipeline\<close>

text \<open>
  Response texts are modelled as \<^typ>\<open>string\<close>, read as ASCII text. \<open>upper\<close> is Python's
  \<^verbatim>\<open>str.upper\<close> on ASCII letters, \<open>lower\<close> is \<^verbatim>\<open>str.lower\<close>, \<open>strip\<close> is
  \<^verbatim>\<open>str.strip()\<close> with the ASCII white space of Python, and \<open>str_in k t\<close> is the
  substring test \<^verbatim>\<open>k in t\<close>.
\<close>

definition upper_char :: "char \<Rightarrow> char" where
  "upper_char c =
     (case map_of (zip ''abcdefghijklmnopqrstuvwxyz'' ''ABCDEFGHIJKLMNOPQRSTUVWXYZ'') c of
        Some d \<Rightarrow> d | None \<Rightarrow> c)"

definition lower_char :: "char \<Rightarrow> char" where
  "lower_char c =
     (case map_of (zip ''ABCDEFGHIJKLMNOPQRSTUVWXYZ'' ''abcdefghijklmnopqrstuvwxyz'') c of
        Some d \<Rightarrow> d | None \<Rightarrow> c)"

definition upper :: "string \<Rightarrow> string" where
  "upper s = map upper_char s"

definition lower :: "string \<Rightarrow> string" where
  "lower s = map lower_char s"

definition is_space :: "char \<Rightarrow> bool" where
  "is_space c =
     (c \<in> set [CHR 0x09, CHR 0x0A, CHR 0x0B, CHR 0x0C, CHR 0x0D,
                CHR 0x1C, CHR 0x1D, CHR 0x1E, CHR 0x1F, CHR '' ''])"

definition strip :: "string \<Rightarrow> string" where
  "strip s = rev (dropWhile is_space (rev (dropWhile is_space s)))"

fun str_in :: "string \<Rightarrow> string \<Rightarrow> bool" where
  "str_in k [] = (k = [])"
| "str_in k (c # cs) = (prefix k (c # cs) \<or> str_in k cs)"

section \<open>Severity classification (machine1 \<open>row_generator\<close>, lines 331-353)\<close>

datatype severity = LOW | MEDIUM | HIGH | CRITICAL

fun keyword :: "severity \<Rightarrow> string" where
  "keyword LOW = ''LOW''"
| "keyword MEDIUM = ''MEDIUM''"
| "keyword HIGH = ''HIGH''"
| "keyword CRITICAL = ''CRITICAL''"

fun rank :: "severity \<Rightarrow> nat" where
  "rank LOW = 0"
| "rank MEDIUM = 1"
| "rank HIGH = 2"
| "rank CRITICAL = 3"

definition classify_severity :: "string \<Rightarrow> severity option" where
  "classify_severity response_text =
     (if response_text \<noteq> [] \<and> strip response_text \<noteq> [] then
        (let text_upper = upper response_text in
         if str_in ''RISK ASSESSMENT:'' text_upper then
           (if str_in ''RISK ASSESSMENT: CRITICAL'' text_upper then Some CRITICAL
            else if str_in ''RISK ASSESSMENT: HIGH'' text_upper then Some HIGH
            else if str_in ''RISK ASSESSMENT: MEDIUM'' text_upper then Some MEDIUM
            else if str_in ''RISK ASSESSMENT: LOW'' text_upper then Some LOW
            else None)
         else if str_in ''CRITICAL'' text_upper then Some CRITICAL
         else if str_in ''HIGH'' text_upper then Some HIGH
         else if str_in ''MEDIUM'' text_upper then Some MEDIUM
         else if str_in ''LOW'' text_upper then Some LOW
         else None)
      else None)"

section \<open>Python floats (binary64) as exact rationals\<close>

text \<open>
  A Python \<^verbatim>\<open>float\<close> is modelled by the rational number it denotes. \<open>fl x\<close> is the
  binary64 number nearest to \<open>x\<close> (ties to the even significand), so each arithmetic
  operation is the exact operation followed by \<open>fl\<close>. Gradual underflow is not
  modelled: the quantities below are quotients of integers by 1000 times a price, never
  subnormal. Overflow of \<^verbatim>\<open>int / int\<close> raises \<^verbatim>\<open>OverflowError\<close> in Python and is a
  result of \<open>int_true_div\<close>.
\<close>

datatype error =
    KeyError string
  | OverflowError
  | ZeroDivisionError
  | OpenFailed string

definition round_half_even :: "rat \<Rightarrow> int" where
  "round_half_even x =
     (let f = \<lfloor>x\<rfloor>; d = x - of_int f in
      if d < 1 / 2 then f
      else if 1 / 2 < d then f + 1
      else if even f then f else f + 1)"

definition pow2 :: "int \<Rightarrow> rat" where
  "pow2 e = (if 0 \<le> e then 2 ^ nat e else 1 / 2 ^ nat (- e))"

definition binade :: "rat \<Rightarrow> int" where
  \<comment> \<open>for \<open>0 < x\<close>: the exponent \<open>e\<close> with \<open>2 ^ e \<le> x < 2 ^ (e + 1)\<close>\<close>
  "binade x =
     (let (p, q) = quotient_of x; e = bitlen p - bitlen q in
      if pow2 e \<le> x then e else e - 1)"

definition fl :: "rat \<Rightarrow> rat" where
  "fl x =
     (if x = 0 then 0
      else (let e = binade \<bar>x\<bar> - 52 in of_int (round_half_even (x / pow2 e)) * pow2 e))"

definition fmul :: "rat \<Rightarrow> rat \<Rightarrow> rat" where
  "fmul a b = fl (a * b)"

definition fadd :: "rat \<Rightarrow> rat \<Rightarrow> rat" where
  "fadd a b = fl (a + b)"

definition fdiv_int :: "rat \<Rightarrow> nat \<Rightarrow> rat" where
  \<comment> \<open>\<^verbatim>\<open>x / n\<close> for a float \<open>x\<close> and a positive int \<open>n\<close>: \<open>n\<close> is converted first\<close>
  "fdiv_int a n = fl (a / fl (of_nat n))"

definition int_true_div :: "int \<Rightarrow> int \<Rightarrow> error + rat" where
  \<comment> \<open>\<^verbatim>\<open>a / b\<close> on Python ints: correctly rounded, or an exception\<close>
  "int_true_div a b =
     (if b = 0 then Inl ZeroDivisionError
      else if 2 ^ 1024 - 2 ^ 970 \<le> \<bar>of_int a / of_int b :: rat\<bar> then Inl OverflowError
      else Inr (fl (of_int a / of_int b)))"

definition round6 :: "rat \<Rightarrow> rat" where
  \<comment> \<open>\<^verbatim>\<open>round(x, 6)\<close>: the decimal with six places nearest to \<open>x\<close>, read back as a float\<close>
  "round6 x = fl (of_int (round_half_even (x * 1000000)) / 1000000)"

section \<open>Cost ledger (\<open>cost_tracker.py\<close>)\<close>

record pricing =
  input_tokens_per_1k :: rat
  output_tokens_per_1k :: rat

definition GEMINI_PRICING :: "string \<rightharpoonup> pricing" where
  "GEMINI_PRICING =
     [''gemini-1.5-flash'' \<mapsto>
        \<lparr>input_tokens_per_1k = fl (75 / 1000000), output_tokens_per_1k = fl (3 / 10000)\<rparr>,
      ''gemini-1.5-pro'' \<mapsto>
        \<lparr>input_tokens_per_1k = fl (125 / 100000), output_tokens_per_1k = fl (5 / 1000)\<rparr>]"

record cost_info =
  model_used :: string
  input_tokens :: int
  output_tokens :: int
  total_tokens :: int
  input_cost_usd :: rat
  output_cost_usd :: rat
  total_cost_usd :: rat
  pricing_rate :: pricing

text \<open>
  A ledger entry is the cost information with the stamps of \<open>log_request_cost\<close>. The
  free-form \<^verbatim>\<open>context\<close> annotation of an entry is not modelled.
\<close>

record cost_entry = cost_info +
  timestamp :: string
  transaction_id :: string
  agent_name :: string
  request_type :: string

record CostTracker =
  self_agent_name :: string
  session_costs :: "cost_entry list"
  total_session_cost :: rat

definition new_tracker :: "string \<Rightarrow> CostTracker" where
  "new_tracker name = \<lparr>self_agent_name = name, session_costs = [], total_session_cost = 0\<rparr>"

definition pricing_key_of :: "string \<Rightarrow> string" where
  "pricing_key_of model_name =
     (if str_in ''pro'' (lower model_name) then ''gemini-1.5-pro''
      else if str_in ''flash'' (lower model_name) then ''gemini-1.5-flash''
      else ''gemini-1.5-flash'')"

definition calculate_cost :: "string \<Rightarrow> int \<Rightarrow> int \<Rightarrow> error + cost_info" where
  "calculate_cost model_name inp outp =
     (let pricing_key = pricing_key_of model_name;
          pricing = (case GEMINI_PRICING pricing_key of
                       Some p \<Rightarrow> p
                     | None \<Rightarrow> the (GEMINI_PRICING ''gemini-1.5-flash''))
      in case int_true_div inp 1000 of
           Inl e \<Rightarrow> Inl e
         | Inr in_k \<Rightarrow>
             (let input_cost = fmul in_k (input_tokens_per_1k pricing) in
              case int_true_div outp 1000 of
                Inl e \<Rightarrow> Inl e
              | Inr out_k \<Rightarrow>
                  (let output_cost = fmul out_k (output_tokens_per_1k pricing);
                       total_cost = fadd input_cost output_cost
                   in Inr \<lparr>model_used = pricing_key,
                           input_tokens = inp,
                           output_tokens = outp,
                           total_tokens = inp + outp,
                           input_cost_usd = round6 input_cost,
                           output_cost_usd = round6 output_cost,
                           total_cost_usd = round6 total_cost,
                           pricing_rate = pricing\<rparr>)))"

definition log_request_cost ::
  "CostTracker \<Rightarrow> string \<Rightarrow> string \<Rightarrow> string \<Rightarrow> int \<Rightarrow> int \<Rightarrow> string
     \<Rightarrow> error + (cost_entry \<times> CostTracker)" where
  "log_request_cost self stamp txn model_name inp outp req_type =
     (case calculate_cost model_name inp outp of
        Inl e \<Rightarrow> Inl e
      | Inr info \<Rightarrow>
          (let cost_entry = cost_info.extend info
                 (cost_entry.fields stamp txn (self_agent_name self) req_type)
           in Inr (cost_entry,
                   self\<lparr>session_costs := session_costs self @ [cost_entry],
                        total_session_cost :=
                          fadd (total_session_cost self) (total_cost_usd info)\<rparr>)))"

datatype jval = JInt int | JFloat rat | JStr string | JNone

text \<open>The summary is a Python dict: the keys present differ between its two branches.\<close>

type_synonym summary = "(string \<times> jval) list"

definition get_session_summary :: "CostTracker \<Rightarrow> summary" where
  "get_session_summary self =
     (if session_costs self = [] then
        [(''total_requests'', JInt 0),
         (''total_cost_usd'', JFloat 0),
         (''average_cost_per_request'', JFloat 0)]
      else
        (let total_input_tokens = sum_list (map input_tokens (session_costs self));
             total_output_tokens = sum_list (map output_tokens (session_costs self))
         in [(''agent_name'', JStr (self_agent_name self)),
             (''total_requests'', JInt (int (length (session_costs self)))),
             (''total_input_tokens'', JInt total_input_tokens),
             (''total_output_tokens'', JInt total_output_tokens),
             (''total_tokens'', JInt (total_input_tokens + total_output_tokens)),
             (''total_cost_usd'', JFloat (round6 (total_session_cost self))),
             (''average_cost_per_request'',
                JFloat (round6 (fdiv_int (total_session_cost self)
                                  (length (session_costs self))))),
             (''session_start'', JStr (timestamp (hd (session_costs self)))),
             (''session_end'', JStr (timestamp (last (session_costs self))))]))"

definition log_session_summary :: "CostTracker \<Rightarrow> error + unit" where
  \<comment> \<open>the log line reads four keys of the summary; a missing key raises \<^verbatim>\<open>KeyError\<close>\<close>
  "log_session_summary self =
     (let summary = get_session_summary self in
      case find (\<lambda>k. map_of summary k = None)
             [''total_requests'', ''total_cost_usd'', ''average_cost_per_request'',
              ''total_tokens''] of
        Some k \<Rightarrow> Inl (KeyError k)
      | None \<Rightarrow> Inr ())"

definition estimate_tokens :: "string \<Rightarrow> int" where
  "estimate_tokens text = max 1 (int (length text) div 4)"

section \<open>Tool-call telemetry (\<open>machine2_diagnosis\<close>, \<open>machine3_remediation\<close>)\<close>

text \<open>
  The counter is a module-level integer, here the state that is passed along.
  \<open>call_next\<close> stands for the handling of the request, during which the reasoning
  engine invokes some tools; every tool function starts with \<open>mark_tool_called\<close>.
\<close>

datatype level = DEBUG | INFO | WARNING | ERROR

type_synonym log_line = "level \<times> string"

datatype http_method = GET | POST

datatype tool =
    diagnose_iot_device
  | diagnose_camera_equipment
  | analyze_root_cause
  | generate_remediation_plan
  | assess_severity_level

definition mark_tool_called :: "tool \<Rightarrow> nat \<Rightarrow> nat" where
  "mark_tool_called tool_name counter = counter + 1"

definition get_tool_call_counter :: "nat \<Rightarrow> nat" where
  "get_tool_call_counter counter = counter"

definition reset_tool_call_counter :: "nat \<Rightarrow> nat" where
  "reset_tool_call_counter counter = 0"

definition call_next :: "tool list \<Rightarrow> nat \<Rightarrow> nat" where
  "call_next invoked counter = fold mark_tool_called invoked counter"

fun digits :: "nat \<Rightarrow> string" where
  "digits n =
     (if n < 10 then [''0123456789'' ! n]
      else digits (n div 10) @ [''0123456789'' ! (n mod 10)])"

definition tool_execution_summary :: "http_method \<Rightarrow> nat \<Rightarrow> log_line list" where
  \<comment> \<open>diagnosis stage, \<open>log_requests\<close> lines 247-257\<close>
  "tool_execution_summary m tool_count =
     (if m = POST then
        (if 4 \<le> tool_count then
           [(INFO, ''All diagnostic tools called: '' @ digits tool_count),
            (INFO, ''REMEDIATION REPORT: Should be forwarded to Machine 3''),
            (INFO, ''DATA FLOW CHECK: Review logs above for any data loss warnings'')]
         else if 3 \<le> tool_count then
           [(WARNING, ''Partial execution: '' @ digits tool_count
                       @ '' tools called - missing remediation_agent call'')]
         else if 0 < tool_count then
           [(WARNING, ''Partial execution: Only '' @ digits tool_count
                       @ '' tools called - check LLM instructions'')]
         else [])
      else [])"

definition remediation_flow_summary :: "http_method \<Rightarrow> nat \<Rightarrow> log_line list" where
  \<comment> \<open>remediation stage, the same place of its \<open>log_requests\<close>\<close>
  "remediation_flow_summary m tool_count =
     (if m = POST then
        (if 1 \<le> tool_count then
           [(INFO, ''Remediation tools executed: '' @ digits tool_count),
            (INFO, ''REMEDIATION CONFIRMATION: Should be sent back to Machine 1''),
            (INFO, ''DEVICE_SPECIFIC_FLOW: Review logs above for IoT/Camera specific actions''),
            (INFO, ''A2A_FLOW_STATUS: Remediation -> Agent 1 (completing circular flow)'')]
         else if tool_count = 0 then
           [(WARNING,
             ''No remediation tools called - check LLM instructions and diagnosis input'')]
         else [])
      else [])"

text \<open>
  \<open>log_requests\<close> of the diagnosis stage, telemetry only: the counter before the
  request, the method and the tools invoked while the request is handled give the
  counter afterwards, the count read after the response and the summary lines logged.
  The cost entry the middleware also writes sits in its own \<^verbatim>\<open>try\<close> and has no
  influence on these.
\<close>

definition log_requests :: "nat \<Rightarrow> http_method \<Rightarrow> tool list \<Rightarrow> nat \<times> nat \<times> log_line list" where
  "log_requests counter m invoked =
     (let counter1 = reset_tool_call_counter counter;
          counter2 = call_next invoked counter1;
          tool_count = get_tool_call_counter counter2
      in (counter2, tool_count, tool_execution_summary m tool_count))"

section \<open>The streaming endpoint of the log-analysis stage (\<open>machine1_log_analysis\<close>)\<close>

subsection \<open>Records, engine outcomes, stream events\<close>

text \<open>
  A row of \<^verbatim>\<open>csv.DictReader\<close> is a dict from field names to cells; a cell is a string,
  or \<^verbatim>\<open>None\<close> where the line is shorter than the header.
\<close>

datatype pyval = PyNone | Str string

type_synonym row = "string \<rightharpoonup> pyval"

definition row_device_id :: "row \<Rightarrow> pyval" where
  "row_device_id row =
     (case row ''Device_ID'' of
        Some v \<Rightarrow> v
      | None \<Rightarrow> (case row ''Model'' of Some v \<Rightarrow> v | None \<Rightarrow> Str ''unknown''))"

fun str_of :: "pyval \<Rightarrow> string" where
  "str_of PyNone = ''None''"
| "str_of (Str s) = s"

text \<open>
  The reasoning engine is external. What the code sees of one run is a sequence of
  parts, each with an optional text and possibly a \<^verbatim>\<open>function_call\<close> attribute, or an
  exception: from the creation of the session, or from the run.
\<close>

record part =
  part_text :: "string option"
  has_function_call :: bool

datatype outcome =
    SessionFails string
  | RunFails string
  | Completes "part list"

fun collect_parts :: "part list \<Rightarrow> string \<times> nat \<times> nat \<Rightarrow> string \<times> nat \<times> nat" where
  "collect_parts [] acc = acc"
| "collect_parts (p # ps) (response_text, function_calls_completed, non_text_parts_count) =
     (case part_text p of
        Some (c # cs) \<Rightarrow>
          collect_parts ps (response_text @ c # cs, function_calls_completed,
                            non_text_parts_count)
      | _ \<Rightarrow>
          (if has_function_call p then
             collect_parts ps (response_text, function_calls_completed + 1,
                               non_text_parts_count + 1)
           else
             collect_parts ps (response_text, function_calls_completed,
                               non_text_parts_count + 1)))"

record severity_counts =
  count_LOW :: nat
  count_MEDIUM :: nat
  count_HIGH :: nat
  count_CRITICAL :: nat

fun count_of :: "severity_counts \<Rightarrow> severity \<Rightarrow> nat" where
  "count_of c LOW = count_LOW c"
| "count_of c MEDIUM = count_MEDIUM c"
| "count_of c HIGH = count_HIGH c"
| "count_of c CRITICAL = count_CRITICAL c"

fun increment :: "severity \<Rightarrow> severity_counts \<Rightarrow> severity_counts" where
  "increment LOW c = c\<lparr>count_LOW := count_LOW c + 1\<rparr>"
| "increment MEDIUM c = c\<lparr>count_MEDIUM := count_MEDIUM c + 1\<rparr>"
| "increment HIGH c = c\<lparr>count_HIGH := count_HIGH c + 1\<rparr>"
| "increment CRITICAL c = c\<lparr>count_CRITICAL := count_CRITICAL c + 1\<rparr>"

datatype stream_event =
    Success nat string pyval string "severity option"
  | Failure nat string pyval string

text \<open>
  The chunks the generator yields. An event chunk is the \<^verbatim>\<open>json.dumps\<close> of the event's
  dict, the closing chunk carries the severity counts and the session summary.
\<close>

datatype chunk =
    Opening
  | Comma
  | Event stream_event
  | Closing severity_counts summary

text \<open>
  What the generator does to the outside, in order: chunks yielded, the two calls to
  the agent runner, and log lines. Of the log lines the model keeps those of the
  forwarding check (lines 363-389, without the debug lines); the others format local
  values only.
\<close>

datatype effect =
    Yield chunk
  | CreateSession
  | RunAgent string
  | Log level string

fun is_call :: "effect \<Rightarrow> bool" where
  "is_call CreateSession = True"
| "is_call (RunAgent llm_input) = True"
| "is_call (Yield c) = False"
| "is_call (Log l m) = False"

fun yielded :: "effect list \<Rightarrow> chunk list" where
  "yielded [] = []"
| "yielded (Yield c # es) = c # yielded es"
| "yielded (e # es) = yielded es"

fun events :: "chunk list \<Rightarrow> stream_event list" where
  "events [] = []"
| "events (Event ev # cs) = ev # events cs"
| "events (c # cs) = events cs"

text \<open>
  The surroundings of one request: the file system (\<open>None\<close>: the path cannot be
  opened; otherwise the rows the reader delivers), the engine's outcome for the record
  with a given number, \<^verbatim>\<open>json.dumps\<close> of the engine input, and the stamps drawn from
  the clock and the uuid generator.
\<close>

record env =
  files :: "string \<rightharpoonup> row list"
  engine :: "nat \<Rightarrow> row \<Rightarrow> outcome"
  dumps :: "row \<Rightarrow> string"
  now :: "nat \<Rightarrow> string"
  new_transaction_id :: "nat \<Rightarrow> string"

record gen_state =
  row_count :: nat
  first :: bool
  counts :: severity_counts
  cost_tracker :: CostTracker
  trace :: "effect list"

subsection \<open>One record\<close>

definition a2a_indicators :: "string list" where
  "a2a_indicators =
     [''diagnosis_agent:'', ''Remediation Status:'', ''Device Type:'', ''Actions Taken:'',
      ''Results Summary:'']"

definition forwarding_check :: "pyval \<Rightarrow> severity option \<Rightarrow> string \<Rightarrow> effect list" where
  \<comment> \<open>lines 363-389\<close>
  "forwarding_check device_id sev response_text =
     (if sev \<in> set [Some MEDIUM, Some HIGH, Some CRITICAL] then
        [Log INFO (''A2A sub-agent consultation required: '' @ str_of device_id @ '' (''
                   @ keyword (the sev) @ '' severity, schema-independent)''),
         Log INFO (''A2A FORWARDING (Agent 1): Instructing LLM to consult diagnosis_agent for ''
                   @ str_of device_id)]
        @ (let a2a_detected = list_ex (\<lambda>indicator. str_in indicator response_text)
                                a2a_indicators
           in if a2a_detected then
                [Log INFO (''A2A sub-agent consultation detected: diagnosis_agent response ''
                           @ ''embedded for device '' @ str_of device_id)]
              else
                [Log WARNING (''A2A sub-agent consultation not detected in final response ''
                              @ ''for device '' @ str_of device_id
                              @ ''. Check agent prompts and sub-agent availability.''),
                 Log WARNING (''Response preview for debugging: '' @ take 300 response_text
                              @ ''...'')])
      else [])"

fun error_text :: "error \<Rightarrow> string" where
  "error_text (KeyError k) = k"
| "error_text OverflowError = ''integer division result too large for a float''"
| "error_text ZeroDivisionError = ''division by zero''"
| "error_text (OpenFailed p) = p"

definition yield_event :: "stream_event \<Rightarrow> gen_state \<Rightarrow> gen_state" where
  "yield_event ev st =
     st\<lparr>first := False,
        trace := trace st @ (if first st then [] else [Yield Comma]) @ [Yield (Event ev)]\<rparr>"

definition emit :: "effect list \<Rightarrow> gen_state \<Rightarrow> gen_state" where
  "emit es st = st\<lparr>trace := trace st @ es\<rparr>"

definition process_row :: "env \<Rightarrow> row \<Rightarrow> string \<Rightarrow> gen_state \<Rightarrow> gen_state" where
  \<comment> \<open>the body of the \<^verbatim>\<open>for\<close> loop once \<^verbatim>\<open>next(reader)\<close> has delivered \<open>row\<close>\<close>
  "process_row e row source_path st0 =
     (let st1 = st0\<lparr>row_count := row_count st0 + 1\<rparr>;
          n = row_count st1;
          device_id = row_device_id row;
          llm_input = dumps e row;
          failed = (\<lambda>msg st. yield_event (Failure n source_path device_id msg) st)
      in case engine e n row of
           SessionFails msg \<Rightarrow> failed msg (emit [CreateSession] st1)
         | RunFails msg \<Rightarrow> failed msg (emit [CreateSession, RunAgent llm_input] st1)
         | Completes parts \<Rightarrow>
             (let st2 = emit [CreateSession, RunAgent llm_input] st1;
                  (response_text, function_calls_completed, non_text_parts_count) =
                     collect_parts parts ([], 0, 0)
              in case log_request_cost (cost_tracker st2) (now e n) (new_transaction_id e n)
                        ''gemini-1.5-flash'' (estimate_tokens llm_input)
                        (estimate_tokens response_text) ''csv_streaming'' of
                   Inl err \<Rightarrow> failed (error_text err) st2
                 | Inr (cost_entry, tracker) \<Rightarrow>
                     (let sev = classify_severity response_text;
                          st3 = emit (forwarding_check device_id sev response_text)
                                  (st2\<lparr>cost_tracker := tracker\<rparr>);
                          st4 = (case sev of
                                   None \<Rightarrow> st3
                                 | Some s \<Rightarrow> st3\<lparr>counts := increment s (counts st3)\<rparr>)
                      in yield_event (Success n source_path device_id response_text sev)
                           st4)))"

subsection \<open>The round-robin loop\<close>

text \<open>
  A reader is what is left of a source, with the source's path. One run of the
  \<^verbatim>\<open>for\<close> loop visits the readers in order, takes one row from each that has one and
  notes the index of each that is exhausted; the noted readers are popped afterwards,
  last index first.
\<close>

type_synonym reader = "row list \<times> string"

fun for_readers ::
  "env \<Rightarrow> reader list \<Rightarrow> nat \<Rightarrow> gen_state \<Rightarrow> reader list \<times> nat list \<times> gen_state" where
  "for_readers e [] i st = ([], [], st)"
| "for_readers e (([], source_path) # rs) i st =
     (let (rs', readers_to_remove, st') = for_readers e rs (i + 1) st
      in (([], source_path) # rs', i # readers_to_remove, st'))"
| "for_readers e ((row # rest, source_path) # rs) i st =
     (let (rs', readers_to_remove, st') =
            for_readers e rs (i + 1) (process_row e row source_path st)
      in ((rest, source_path) # rs', readers_to_remove, st'))"

definition pop :: "nat \<Rightarrow> 'a list \<Rightarrow> 'a list" where
  "pop i xs = take i xs @ drop (Suc i) xs"

definition remove_exhausted :: "nat list \<Rightarrow> reader list \<Rightarrow> reader list" where
  "remove_exhausted readers_to_remove readers = fold pop (rev readers_to_remove) readers"

definition one_pass :: "env \<Rightarrow> reader list \<Rightarrow> gen_state \<Rightarrow> reader list \<times> gen_state" where
  "one_pass e readers st =
     (let (rs', readers_to_remove, st') = for_readers e readers 0 st
      in (remove_exhausted readers_to_remove rs', st'))"

definition remaining :: "reader list \<Rightarrow> nat" where
  "remaining readers = sum_list (map (\<lambda>r. Suc (length (fst r))) readers)"

fun advance :: "reader \<Rightarrow> reader" where
  "advance (rows, source_path) = (tl rows, source_path)"

definition exhausted :: "reader \<Rightarrow> bool" where
  "exhausted r = (fst r = [])"

lemma pop_length_append: "pop (length pre) (pre @ x # xs) = pre @ xs"
  by (simp add: pop_def)

lemma for_readers_remove:
  "for_readers e rs (length pre) st = (rs', readers_to_remove, st') \<Longrightarrow>
   remove_exhausted readers_to_remove (pre @ rs')
     = pre @ map advance (filter (\<lambda>r. \<not> exhausted r) rs)"
proof (induction rs arbitrary: pre st rs' readers_to_remove st')
  case Nil
  then show ?case by (simp add: remove_exhausted_def)
next
  case (Cons r rs)
  obtain rows source_path where r: "r = (rows, source_path)" by (cases r)
  show ?case
  proof (cases rows)
    case Nil
    obtain rs1 rem1 st1 where rec: "for_readers e rs (length (pre @ [r])) st = (rs1, rem1, st1)"
      by (metis prod_cases3)
    with Cons.prems r Nil have res: "rs' = r # rs1" "readers_to_remove = length pre # rem1"
      by simp_all
    from Cons.IH [OF rec]
    have "remove_exhausted rem1 (pre @ r # rs1)
            = pre @ r # map advance (filter (\<lambda>r. \<not> exhausted r) rs)"
      by simp
    then have "remove_exhausted readers_to_remove (pre @ rs')
            = pop (length pre) (pre @ r # map advance (filter (\<lambda>r. \<not> exhausted r) rs))"
      by (simp add: res remove_exhausted_def)
    also have "\<dots> = pre @ map advance (filter (\<lambda>r. \<not> exhausted r) rs)"
      by (rule pop_length_append)
    finally show ?thesis
      by (simp add: r Nil exhausted_def)
  next
    case (Cons row rest)
    obtain rs1 rem1 st1 where rec:
      "for_readers e rs (length (pre @ [(rest, source_path)]))
         (process_row e row source_path st) = (rs1, rem1, st1)"
      by (metis prod_cases3)
    with Cons.prems r Cons have res: "rs' = (rest, source_path) # rs1" "readers_to_remove = rem1"
      by simp_all
    from Cons.IH [OF rec] show ?thesis
      by (simp add: res r Cons exhausted_def)
  qed
qed

lemma one_pass_readers:
  "fst (one_pass e readers st) = map advance (filter (\<lambda>r. \<not> exhausted r) readers)"
proof -
  obtain rs' rem st' where rec: "for_readers e readers (length ([] :: reader list)) st = (rs', rem, st')"
    by (metis prod_cases3)
  from for_readers_remove [OF rec] rec show ?thesis
    by (simp add: one_pass_def)
qed

lemma remaining_advance:
  "remaining (map advance (filter (\<lambda>r. \<not> exhausted r) readers)) + length readers
     \<le> remaining readers"
proof (induction readers)
  case Nil
  then show ?case by (simp add: remaining_def)
next
  case (Cons r readers)
  obtain rows source_path where r: "r = (rows, source_path)" by (cases r)
  from Cons show ?case
    by (cases rows) (simp_all add: remaining_def exhausted_def r)
qed

lemma one_pass_decreases:
  assumes "readers \<noteq> []"
  shows "remaining (fst (one_pass e readers st)) < remaining readers"
proof -
  from assms have "0 < length readers" by simp
  with remaining_advance [of readers]
  have "remaining (map advance (filter (\<lambda>r. \<not> exhausted r) readers)) < remaining readers"
    by linarith
  then show ?thesis
    by (simp add: one_pass_readers)
qed

function while_readers :: "env \<Rightarrow> reader list \<Rightarrow> gen_state \<Rightarrow> gen_state" where
  "while_readers e readers st =
     (if readers = [] then st
      else while_readers e (fst (one_pass e readers st)) (snd (one_pass e readers st)))"
  by pat_completeness auto
termination
  by (relation "measure (\<lambda>p. remaining (fst (snd p)))")
     (simp_all add: one_pass_decreases)

declare while_readers.simps [simp del]

subsection \<open>The generator and the endpoint\<close>

fun open_all :: "env \<Rightarrow> string list \<Rightarrow> error + reader list" where
  "open_all e [] = Inr []"
| "open_all e (source_path # ps) =
     (case files e source_path of
        None \<Rightarrow> Inl (OpenFailed source_path)
      | Some rows \<Rightarrow>
          (case open_all e ps of
             Inl err \<Rightarrow> Inl err
           | Inr readers \<Rightarrow> Inr ((rows, source_path) # readers)))"

text \<open>
  A run of the generator ends by completing, after the closing chunk, or by an
  exception that leaves it: the stream then stops after the chunks yielded so far.
\<close>

datatype ending = Completed | Aborted error

definition row_generator ::
  "env \<Rightarrow> string list \<Rightarrow> severity_counts \<Rightarrow> CostTracker \<Rightarrow> gen_state \<times> ending" where
  "row_generator e sources severity_counts tracker =
     (let st0 = \<lparr>row_count = 0, first = True, counts = severity_counts,
                 cost_tracker = tracker, trace = [Yield Opening]\<rparr>
      in case open_all e sources of
           Inl err \<Rightarrow> (st0, Aborted err)
         | Inr readers \<Rightarrow>
             (let st = while_readers e readers st0 in
              case log_session_summary (cost_tracker st) of
                Inl err \<Rightarrow> (st, Aborted err)
              | Inr u \<Rightarrow>
                  (emit [Yield (Closing (counts st) (get_session_summary (cost_tracker st)))]
                     st,
                   Completed)))"

text \<open>
  The request body: it cannot be read as a JSON object (the exception's text is kept),
  or it gives the values of \<^verbatim>\<open>csv_paths\<close> and \<^verbatim>\<open>csv_path\<close>. A list is kept as the
  \<^verbatim>\<open>str\<close> of its items; \<open>OtherValue\<close> is an absent key or any other JSON value.
\<close>

datatype field_value = PathList "string list" | PathString string | OtherValue

datatype request_body = Unreadable string | Fields field_value field_value

datatype response =
    JSONResponse string nat
  | StreamingResponse "gen_state \<times> ending"

fun normalize_sources :: "field_value \<Rightarrow> field_value \<Rightarrow> string list option" where
  "normalize_sources (PathList (p # ps)) csv_path = Some (p # ps)"
| "normalize_sources csv_paths (PathString (c # cs)) = Some [c # cs]"
| "normalize_sources csv_paths csv_path = None"

definition stream_csv_endpoint :: "env \<Rightarrow> CostTracker \<Rightarrow> request_body \<Rightarrow> response" where
  "stream_csv_endpoint e tracker body =
     (case body of
        Unreadable msg \<Rightarrow> JSONResponse msg 500
      | Fields csv_paths csv_path \<Rightarrow>
          (case normalize_sources csv_paths csv_path of
             None \<Rightarrow> JSONResponse ''csv_path or csv_paths is required'' 400
           | Some sources \<Rightarrow>
               StreamingResponse
                 (row_generator e sources
                    \<lparr>count_LOW = 0, count_MEDIUM = 0, count_HIGH = 0, count_CRITICAL = 0\<rparr>
                    tracker)))"

subsection \<open>The order of the merged stream, as the specification words it\<close>

text \<open>
  Round-robin with removal on exhaustion: one pass takes the first row of every open
  source, in the order of the source list; a source without rows leaves the rotation.
\<close>

definition heads :: "reader list \<Rightarrow> (row \<times> string) list" where
  "heads readers = map (\<lambda>r. (hd (fst r), snd r)) (filter (\<lambda>r. \<not> exhausted r) readers)"

function round_robin :: "reader list \<Rightarrow> (row \<times> string) list" where
  "round_robin readers =
     (if readers = [] then []
      else heads readers @ round_robin (map advance (filter (\<lambda>r. \<not> exhausted r) readers)))"
  by pat_completeness auto
termination
proof (relation "measure remaining")
  show "wf (measure remaining)" by simp
next
  fix readers :: "reader list"
  assume "readers \<noteq> []"
  then have "0 < length readers" by simp
  with remaining_advance [of readers]
  have "remaining (map advance (filter (\<lambda>r. \<not> exhausted r) readers)) < remaining readers"
    by linarith
  then show "(map advance (filter (\<lambda>r. \<not> exhausted r) readers), readers) \<in> measure remaining"
    by simp
qed

declare round_robin.simps [simp del]

text \<open>
  The event of one record: it depends on the record, its number and its source only
  (the cost of a request is a function of the token counts).
\<close>

definition record_event :: "env \<Rightarrow> nat \<Rightarrow> row \<times> string \<Rightarrow> stream_event" where
  "record_event e n rec =
     (let row = fst rec; source_path = snd rec; device_id = row_device_id row in
      case engine e n row of
        SessionFails msg \<Rightarrow> Failure n source_path device_id msg
      | RunFails msg \<Rightarrow> Failure n source_path device_id msg
      | Completes parts \<Rightarrow>
          (let response_text = fst (collect_parts parts ([], 0, 0)) in
           case calculate_cost ''gemini-1.5-flash'' (estimate_tokens (dumps e row))
                  (estimate_tokens response_text) of
             Inl err \<Rightarrow> Failure n source_path device_id (error_text err)
           | Inr info \<Rightarrow>
               Success n source_path device_id response_text
                 (classify_severity response_text)))"

fun stream_events :: "env \<Rightarrow> nat \<Rightarrow> (row \<times> string) list \<Rightarrow> stream_event list" where
  "stream_events e n [] = []"
| "stream_events e n (rec # recs) = record_event e (Suc n) rec # stream_events e (Suc n) recs"


fun success_with :: "severity option \<Rightarrow> stream_event \<Rightarrow> bool" where
  "success_with sev (Success n source_path device_id response_text sev') = (sev' = sev)"
| "success_with sev (Failure n source_path device_id msg) = False"

fun is_success :: "stream_event \<Rightarrow> bool" where
  "is_success (Success n source_path device_id response_text sev) = True"
| "is_success (Failure n source_path device_id msg) = False"

fun event_row :: "stream_event \<Rightarrow> nat" where
  "event_row (Success n source_path device_id response_text sev) = n"
| "event_row (Failure n source_path device_id msg) = n"

fun event_source :: "stream_event \<Rightarrow> string" where
  "event_source (Success n source_path device_id response_text sev) = source_path"
| "event_source (Failure n source_path device_id msg) = source_path"

definition process_all :: "env \<Rightarrow> (row \<times> string) list \<Rightarrow> gen_state \<Rightarrow> gen_state" where
  "process_all e recs st = fold (\<lambda>rec. process_row e (fst rec) (snd rec)) recs st"

fun event_device_id :: "stream_event \<Rightarrow> pyval" where
  "event_device_id (Success n source_path device_id response_text sev) = device_id"
| "event_device_id (Failure n source_path device_id msg) = device_id"

subsection \<open>A small run, used as an example below\<close>

text \<open>
  Two sources, with two records and one record. The engine answers the first record
  with a report of high risk, fails on the second, and answers the third with a text
  that names no level.
\<close>

definition demo_engine :: "nat \<Rightarrow> row \<Rightarrow> outcome" where
  "demo_engine n row =
     (if n = 1 then
        Completes [\<lparr>part_text = None, has_function_call = True\<rparr>,
                   \<lparr>part_text = Some ''RISK ASSESSMENT: HIGH'', has_function_call = False\<rparr>]
      else if n = 2 then RunFails ''engine unavailable''
      else Completes [\<lparr>part_text = Some ''all nominal'', has_function_call = False\<rparr>])"

definition demo_env :: env where
  "demo_env =
     \<lparr>files = [''iot.csv'' \<mapsto> [[''Device_ID'' \<mapsto> Str ''sensor_7''],
                               [''Device_ID'' \<mapsto> Str ''sensor_8'']],
               ''cameras.csv'' \<mapsto> [[''Model'' \<mapsto> Str ''cam_1'']]],
      engine = demo_engine,
      dumps = (\<lambda>row. ''record''),
      now = (\<lambda>n. ''2024-01-01T00:00:00''),
      new_transaction_id = (\<lambda>n. ''log_analysis_agent_0_00000000'')\<rparr>"

definition zero_counts :: severity_counts where
  "zero_counts = \<lparr>count_LOW = 0, count_MEDIUM = 0, count_HIGH = 0, count_CRITICAL = 0\<rparr>"

text \<open>A second run: two sources with three and five records, every record answered.\<close>

definition device_row :: "string \<Rightarrow> row" where
  "device_row d = [''Device_ID'' \<mapsto> Str d]"

definition two_sources_env :: env where
  "two_sources_env =
     \<lparr>files = [''first.csv'' \<mapsto> map device_row [''a0'', ''a1'', ''a2''],
               ''second.csv'' \<mapsto> map device_row [''b0'', ''b1'', ''b2'', ''b3'', ''b4'']],
      engine = (\<lambda>n row. Completes [\<lparr>part_text = Some ''RISK ASSESSMENT: LOW'',
                                          has_function_call = False\<rparr>]),
      dumps = (\<lambda>row. ''record''),
      now = (\<lambda>n. ''2024-01-01T00:00:00''),
      new_transaction_id = (\<lambda>n. ''log_analysis_agent_0_00000000'')\<rparr>"

section \<open>Properties of the severity classifier\<close>

lemma str_in_set: "str_in k t \<Longrightarrow> set k \<subseteq> set t"
proof (induction t)
  case Nil
  then show ?case by simp
next
  case (Cons c cs)
  from Cons.prems have "prefix k (c # cs) \<or> str_in k cs" by simp
  then show ?case
  proof
    assume "prefix k (c # cs)"
    then show ?thesis by (rule set_mono_prefix)
  next
    assume "str_in k cs"
    with Cons.IH show ?thesis by auto
  qed
qed

lemma is_space_upper_char: "is_space c \<Longrightarrow> upper_char c = c"
  apply (simp add: is_space_def)
  apply (elim disjE)
  apply (simp_all add: upper_char_def)
  done

lemma strip_empty_all_space:
  assumes "strip t = []"
  shows "\<forall>c\<in>set t. is_space c"
proof -
  from assms have "dropWhile is_space (rev (dropWhile is_space t)) = []"
    by (simp add: strip_def)
  then have "\<forall>c\<in>set (dropWhile is_space t). is_space c"
    by (simp add: dropWhile_eq_Nil_conv)
  then have "dropWhile is_space t = []"
    by (metis hd_dropWhile list.set_sel(1))
  then show ?thesis
    by (simp add: dropWhile_eq_Nil_conv)
qed

text \<open>A text in which a word with a visible character occurs is not blank.\<close>

lemma keyword_not_blank:
  assumes "str_in k (upper t)" and "c \<in> set k" and "\<not> is_space c"
  shows "t \<noteq> [] \<and> strip t \<noteq> []"
proof -
  from assms(1,2) have "c \<in> set (upper t)"
    using str_in_set by blast
  then obtain d where d: "d \<in> set t" "upper_char d = c"
    by (auto simp: upper_def)
  have "\<not> is_space d"
  proof
    assume "is_space d"
    with d(2) assms(3) show False
      by (simp add: is_space_upper_char)
  qed
  with d(1) have "strip t \<noteq> []"
    using strip_empty_all_space by blast
  with d(1) show ?thesis by auto
qed

lemma keyword_has_letter: "\<exists>c\<in>set (keyword s). \<not> is_space c"
  by (cases s) (simp_all add: is_space_def)

lemma keyword_present_not_blank:
  "str_in (keyword s) (upper t) \<Longrightarrow> t \<noteq> [] \<and> strip t \<noteq> []"
  using keyword_has_letter keyword_not_blank by blast

lemma classify_no_marker:
  assumes "\<not> str_in ''RISK ASSESSMENT:'' (upper t)"
  shows "classify_severity t =
     (if str_in (keyword CRITICAL) (upper t) then Some CRITICAL
      else if str_in (keyword HIGH) (upper t) then Some HIGH
      else if str_in (keyword MEDIUM) (upper t) then Some MEDIUM
      else if str_in (keyword LOW) (upper t) then Some LOW
      else None)"
proof (cases "t \<noteq> [] \<and> strip t \<noteq> []")
  case True
  with assms show ?thesis
    by (simp add: classify_severity_def Let_def)
next
  case False
  then have "\<not> str_in (keyword s) (upper t)" for s
    using keyword_present_not_blank by blast
  then have "\<not> str_in (keyword CRITICAL) (upper t)" "\<not> str_in (keyword HIGH) (upper t)"
    "\<not> str_in (keyword MEDIUM) (upper t)" "\<not> str_in (keyword LOW) (upper t)"
    by blast+
  moreover from False have "classify_severity t = None"
    by (auto simp: classify_severity_def)
  ultimately show ?thesis by simp
qed

lemma all_severities: "(\<forall>s. P s) \<longleftrightarrow> P LOW \<and> P MEDIUM \<and> P HIGH \<and> P CRITICAL"
  by (metis severity.exhaust)

text \<open>
  Claim C4. For a response text without the marker \<^verbatim>\<open>RISK ASSESSMENT:\<close> (looked for in
  the upper-cased text, as every keyword is), the classifier returns the most severe
  level whose keyword occurs anywhere in the text, whatever the position: the result is
  \<open>None\<close> exactly when no keyword occurs, and a result \<open>Some s\<close> is a level that occurs
  and that no occurring level outranks. In particular a text with both "medium" and
  "critical" is classified CRITICAL, and the empty text is classified \<open>None\<close>.
\<close>

theorem keyword_fallback_most_severe:
  assumes "\<not> str_in ''RISK ASSESSMENT:'' (upper t)"
  shows "(classify_severity t = None \<longleftrightarrow> (\<forall>s. \<not> str_in (keyword s) (upper t)))
       \<and> (\<forall>s. classify_severity t = Some s \<longrightarrow>
              str_in (keyword s) (upper t)
            \<and> (\<forall>s'. str_in (keyword s') (upper t) \<longrightarrow> rank s' \<le> rank s))
       \<and> (str_in ''MEDIUM'' (upper t) \<and> str_in ''CRITICAL'' (upper t)
            \<longrightarrow> classify_severity t = Some CRITICAL)
       \<and> (t = [] \<longrightarrow> classify_severity t = None)"
proof -
  note c = classify_no_marker [OF assms]
  have 1: "classify_severity t = None \<longleftrightarrow> (\<forall>s. \<not> str_in (keyword s) (upper t))"
    unfolding all_severities c by simp
  have 2: "\<forall>s. classify_severity t = Some s \<longrightarrow>
              str_in (keyword s) (upper t)
            \<and> (\<forall>s'. str_in (keyword s') (upper t) \<longrightarrow> rank s' \<le> rank s)"
    unfolding all_severities c by simp
  have 3: "str_in ''MEDIUM'' (upper t) \<and> str_in ''CRITICAL'' (upper t)
            \<longrightarrow> classify_severity t = Some CRITICAL"
    unfolding c by simp
  have 4: "t = [] \<longrightarrow> classify_severity t = None"
    by (simp add: classify_severity_def)
  show ?thesis
    by (intro conjI) (rule 1, rule 2, rule 3, rule 4)
qed

theorem keyword_fallback_most_severe_witness:
  "\<not> str_in ''RISK ASSESSMENT:'' (upper ''Status medium; later critical'')
   \<and> classify_severity ''Status medium; later critical'' = Some CRITICAL"
proof -
  have h: "\<not> str_in ''RISK ASSESSMENT:'' (upper ''Status medium; later critical'')"
    by (simp add: upper_def upper_char_def)
  have k: "str_in ''MEDIUM'' (upper ''Status medium; later critical'')
         \<and> str_in ''CRITICAL'' (upper ''Status medium; later critical'')"
    by (simp add: upper_def upper_char_def)
  have "str_in ''MEDIUM'' (upper ''Status medium; later critical'')
         \<and> str_in ''CRITICAL'' (upper ''Status medium; later critical'')
     \<longrightarrow> classify_severity ''Status medium; later critical'' = Some CRITICAL"
    using keyword_fallback_most_severe [OF h] by (elim conjE)
  with k have "classify_severity ''Status medium; later critical'' = Some CRITICAL"
    by (rule rev_mp)
  with h show ?thesis by (rule conjI)
qed

text \<open>
  Claim C5 says that a marker followed by an unknown level falls back to the keyword
  search. The code does not: the search is the \<^verbatim>\<open>elif\<close> of the test for the marker, so
  a text with the marker and no known level after it is classified \<open>None\<close>, also when a
  level keyword occurs elsewhere.
\<close>

theorem marker_unknown_level_counterexample:
  "str_in ''RISK ASSESSMENT:'' (upper ''Risk Assessment: UNKNOWN. Critical failure'')
   \<and> str_in (keyword CRITICAL) (upper ''Risk Assessment: UNKNOWN. Critical failure'')
   \<and> classify_severity ''Risk Assessment: UNKNOWN. Critical failure'' = None"
  by (simp add: classify_severity_def strip_def is_space_def upper_def upper_char_def)

text \<open>
  Claim C5, amended. The keyword search applies only to a text without the marker:
  every text that contains \<^verbatim>\<open>RISK ASSESSMENT:\<close> but none of the four labelled markers
  \<^verbatim>\<open>RISK ASSESSMENT: <LEVEL>\<close> is classified \<open>None\<close>, whatever else it contains.
\<close>

theorem marker_without_known_level:
  assumes "str_in ''RISK ASSESSMENT:'' (upper t)"
      and "\<forall>s. \<not> str_in (''RISK ASSESSMENT: '' @ keyword s) (upper t)"
  shows "classify_severity t = None"
proof -
  from assms(2) have "\<not> str_in (''RISK ASSESSMENT: '' @ keyword CRITICAL) (upper t)"
    "\<not> str_in (''RISK ASSESSMENT: '' @ keyword HIGH) (upper t)"
    "\<not> str_in (''RISK ASSESSMENT: '' @ keyword MEDIUM) (upper t)"
    "\<not> str_in (''RISK ASSESSMENT: '' @ keyword LOW) (upper t)"
    by (rule spec [of "\<lambda>s. \<not> str_in (''RISK ASSESSMENT: '' @ keyword s) (upper t)"])+
  with assms(1) show ?thesis
    by (simp add: classify_severity_def Let_def)
qed

theorem marker_without_known_level_witness:
  "str_in ''RISK ASSESSMENT:'' (upper ''RISK ASSESSMENT: severe (high load)'')
   \<and> (\<forall>s. \<not> str_in (''RISK ASSESSMENT: '' @ keyword s)
              (upper ''RISK ASSESSMENT: severe (high load)''))
   \<and> classify_severity ''RISK ASSESSMENT: severe (high load)'' = None"
proof -
  have 1: "str_in ''RISK ASSESSMENT:'' (upper ''RISK ASSESSMENT: severe (high load)'')"
    by (simp add: upper_def upper_char_def)
  have 2: "\<forall>s. \<not> str_in (''RISK ASSESSMENT: '' @ keyword s)
              (upper ''RISK ASSESSMENT: severe (high load)'')"
    unfolding all_severities by (simp add: upper_def upper_char_def)
  from 1 2 marker_without_known_level [OF 1 2] show ?thesis
    by (intro conjI)
qed

section \<open>Properties of the tool-call telemetry\<close>

lemma call_next_counts: "call_next invoked counter = counter + length invoked"
  unfolding call_next_def
  by (induction invoked arbitrary: counter) (simp_all add: mark_tool_called_def)

text \<open>
  The count of a request does not depend on the counter left by earlier requests, and
  is the number of tools invoked while the request was handled.
\<close>

lemma log_requests_count:
  "log_requests counter m invoked =
     (length invoked, length invoked, tool_execution_summary m (length invoked))"
  by (simp add: log_requests_def reset_tool_call_counter_def get_tool_call_counter_def
        call_next_counts Let_def)

lemma summary_complete:
  "4 \<le> n \<Longrightarrow> map fst (tool_execution_summary POST n) = [INFO, INFO, INFO]"
  by (simp add: tool_execution_summary_def)

lemma summary_partial:
  "0 < n \<Longrightarrow> n < 4 \<Longrightarrow> map fst (tool_execution_summary POST n) = [WARNING]"
  by (simp add: tool_execution_summary_def)

text \<open>The remediation stage does log a request without any tool call.\<close>

lemma remediation_zero_count_warns:
  "remediation_flow_summary POST 0 =
     [(WARNING, ''No remediation tools called - check LLM instructions and diagnosis input'')]"
  by (simp add: remediation_flow_summary_def)

text \<open>
  Claim C7 holds for the reset, the counting and the outcomes "complete" and
  "partial", but not for the missed execution: at a \<^verbatim>\<open>POST\<close> request during which no
  tool is invoked the diagnosis stage logs nothing. Its chain of tests ends with
  \<^verbatim>\<open>elif tool_count > 0\<close>, followed by the comment "Only log error for POST requests
  with 0 tools" and no statement.
\<close>

theorem diagnosis_zero_count_logs_nothing:
  "log_requests counter POST [] = (0, 0, [])"
  by (simp add: log_requests_count tool_execution_summary_def)

section \<open>Properties of the cost ledger\<close>

lemma pricing_key_cases:
  "pricing_key_of model_name = ''gemini-1.5-pro''
   \<or> pricing_key_of model_name = ''gemini-1.5-flash''"
  by (simp add: pricing_key_of_def)

lemma pricing_found: "\<exists>rate. GEMINI_PRICING (pricing_key_of model_name) = Some rate"
  using pricing_key_cases [of model_name]
  by (auto simp: GEMINI_PRICING_def)

lemma int_true_div_1000:
  "int_true_div n 1000 =
     (if 2 ^ 1024 - 2 ^ 970 \<le> \<bar>of_int n / 1000 :: rat\<bar> then Inl OverflowError
      else Inr (fl (of_int n / 1000)))"
  by (simp add: int_true_div_def)

lemma calculate_cost_result:
  assumes "GEMINI_PRICING (pricing_key_of model_name) = Some rate"
  shows "calculate_cost model_name inp outp =
     (if 2 ^ 1024 - 2 ^ 970 \<le> \<bar>of_int inp / 1000 :: rat\<bar>
         \<or> 2 ^ 1024 - 2 ^ 970 \<le> \<bar>of_int outp / 1000 :: rat\<bar>
      then Inl OverflowError
      else Inr \<lparr>model_used = pricing_key_of model_name,
                input_tokens = inp,
                output_tokens = outp,
                total_tokens = inp + outp,
                input_cost_usd =
                  round6 (fmul (fl (of_int inp / 1000)) (input_tokens_per_1k rate)),
                output_cost_usd =
                  round6 (fmul (fl (of_int outp / 1000)) (output_tokens_per_1k rate)),
                total_cost_usd =
                  round6 (fadd (fmul (fl (of_int inp / 1000)) (input_tokens_per_1k rate))
                            (fmul (fl (of_int outp / 1000)) (output_tokens_per_1k rate))),
                pricing_rate = rate\<rparr>)"
  using assms by (simp add: calculate_cost_def int_true_div_1000 Let_def)

lemma flash_rates:
  "GEMINI_PRICING ''gemini-1.5-flash''
     = Some \<lparr>input_tokens_per_1k = fl (75 / 1000000), output_tokens_per_1k = fl (3 / 10000)\<rparr>"
  by (simp add: GEMINI_PRICING_def)

lemma flash_key: "pricing_key_of ''gemini-1.5-flash'' = ''gemini-1.5-flash''"
  by (simp add: pricing_key_of_def lower_def lower_char_def)

lemma fl_flash_input: "fl (75 / 1000000) = 5534023222112865 / 73786976294838206464"
  by code_simp

lemma fl_flash_output: "fl (3 / 10000) = 5534023222112865 / 18446744073709551616"
  by code_simp

lemma fl_one_thousand: "fl (of_int (1000 :: int) / 1000) = 1"
  by code_simp

lemma fmul_flash_input:
  "fmul 1 (5534023222112865 / 73786976294838206464) = 5534023222112865 / 73786976294838206464"
  by code_simp

lemma fmul_flash_output:
  "fmul 1 (5534023222112865 / 18446744073709551616) = 5534023222112865 / 18446744073709551616"
  by code_simp

lemma fadd_flash:
  "fadd (5534023222112865 / 73786976294838206464) (5534023222112865 / 18446744073709551616)
     = 6917529027641081 / 18446744073709551616"
  by code_simp

lemma round6_flash:
  "round6 (6917529027641081 / 18446744073709551616) = 3458764513820541 / 9223372036854775808"
  by code_simp

lemma fl_flash_total: "fl (375 / 1000000) = 3458764513820541 / 9223372036854775808"
  by code_simp

lemma flash_example:
  "\<exists>info. calculate_cost ''gemini-1.5-flash'' 1000 1000 = Inr info
        \<and> total_cost_usd info = fl (375 / 1000000)"
proof -
  have rate: "GEMINI_PRICING (pricing_key_of ''gemini-1.5-flash'')
     = Some \<lparr>input_tokens_per_1k = fl (75 / 1000000), output_tokens_per_1k = fl (3 / 10000)\<rparr>"
    by (simp only: flash_key flash_rates)
  have range: "\<not> (2 ^ 1024 - 2 ^ 970 \<le> \<bar>of_int 1000 / 1000 :: rat\<bar>
         \<or> 2 ^ 1024 - 2 ^ 970 \<le> \<bar>of_int 1000 / 1000 :: rat\<bar>)"
    by simp
  have total: "round6 (fadd (fmul (fl (of_int (1000 :: int) / 1000)) (fl (75 / 1000000)))
                         (fmul (fl (of_int (1000 :: int) / 1000)) (fl (3 / 10000))))
                 = fl (375 / 1000000)"
    by (simp only: fl_one_thousand fl_flash_input fl_flash_output fmul_flash_input
          fmul_flash_output fadd_flash round6_flash fl_flash_total)
  show ?thesis
    unfolding calculate_cost_result [OF rate] if_not_P [OF range]
    by (simp only: pricing.select_convs total sum.inject cost_info.select_convs simp_thms ex_simps)
qed

text \<open>
  Claim C8. The pricing tier is the pro tier when the lower-cased model name contains
  "pro" and the flash tier otherwise. Unless a token count is too large for a float,
  \<open>calculate_cost\<close> returns the input cost \<open>(input_tokens/1000) * input rate\<close>, the
  output cost \<open>(output_tokens/1000) * output rate\<close> and their sum, each rounded to six
  decimal places. For \<open>gemini-1.5-flash\<close> with 1000 and 1000 tokens the total is the
  float 0.000375.
\<close>

theorem calculate_cost_formula:
  "pricing_key_of model_name =
     (if str_in ''pro'' (lower model_name) then ''gemini-1.5-pro'' else ''gemini-1.5-flash'')
   \<and> (\<exists>rate. GEMINI_PRICING (pricing_key_of model_name) = Some rate
        \<and> (\<bar>of_int inp / 1000 :: rat\<bar> < 2 ^ 1024 - 2 ^ 970
           \<and> \<bar>of_int outp / 1000 :: rat\<bar> < 2 ^ 1024 - 2 ^ 970
           \<longrightarrow> (\<exists>info. calculate_cost model_name inp outp = Inr info
                 \<and> model_used info = pricing_key_of model_name
                 \<and> pricing_rate info = rate
                 \<and> input_cost_usd info =
                     round6 (fmul (fl (of_int inp / 1000)) (input_tokens_per_1k rate))
                 \<and> output_cost_usd info =
                     round6 (fmul (fl (of_int outp / 1000)) (output_tokens_per_1k rate))
                 \<and> total_cost_usd info =
                     round6 (fadd (fmul (fl (of_int inp / 1000)) (input_tokens_per_1k rate))
                               (fmul (fl (of_int outp / 1000))
                                  (output_tokens_per_1k rate))))))
   \<and> (\<exists>info. calculate_cost ''gemini-1.5-flash'' 1000 1000 = Inr info
        \<and> total_cost_usd info = fl (375 / 1000000))"
proof (intro conjI)
  show "pricing_key_of model_name =
     (if str_in ''pro'' (lower model_name) then ''gemini-1.5-pro'' else ''gemini-1.5-flash'')"
    by (simp add: pricing_key_of_def)
next
  obtain rate where rate: "GEMINI_PRICING (pricing_key_of model_name) = Some rate"
    using pricing_found by blast
  show "\<exists>rate. GEMINI_PRICING (pricing_key_of model_name) = Some rate
        \<and> (\<bar>of_int inp / 1000 :: rat\<bar> < 2 ^ 1024 - 2 ^ 970
           \<and> \<bar>of_int outp / 1000 :: rat\<bar> < 2 ^ 1024 - 2 ^ 970
           \<longrightarrow> (\<exists>info. calculate_cost model_name inp outp = Inr info
                 \<and> model_used info = pricing_key_of model_name
                 \<and> pricing_rate info = rate
                 \<and> input_cost_usd info =
                     round6 (fmul (fl (of_int inp / 1000)) (input_tokens_per_1k rate))
                 \<and> output_cost_usd info =
                     round6 (fmul (fl (of_int outp / 1000)) (output_tokens_per_1k rate))
                 \<and> total_cost_usd info =
                     round6 (fadd (fmul (fl (of_int inp / 1000)) (input_tokens_per_1k rate))
                               (fmul (fl (of_int outp / 1000))
                                  (output_tokens_per_1k rate)))))"
  proof (intro exI [of _ rate] conjI impI)
    show "GEMINI_PRICING (pricing_key_of model_name) = Some rate" by (rule rate)
  next
    assume "\<bar>of_int inp / 1000 :: rat\<bar> < 2 ^ 1024 - 2 ^ 970
           \<and> \<bar>of_int outp / 1000 :: rat\<bar> < 2 ^ 1024 - 2 ^ 970"
    then have "\<not> (2 ^ 1024 - 2 ^ 970 \<le> \<bar>of_int inp / 1000 :: rat\<bar>
         \<or> 2 ^ 1024 - 2 ^ 970 \<le> \<bar>of_int outp / 1000 :: rat\<bar>)"
      by linarith
    then show "\<exists>info. calculate_cost model_name inp outp = Inr info
                 \<and> model_used info = pricing_key_of model_name
                 \<and> pricing_rate info = rate
                 \<and> input_cost_usd info =
                     round6 (fmul (fl (of_int inp / 1000)) (input_tokens_per_1k rate))
                 \<and> output_cost_usd info =
                     round6 (fmul (fl (of_int outp / 1000)) (output_tokens_per_1k rate))
                 \<and> total_cost_usd info =
                     round6 (fadd (fmul (fl (of_int inp / 1000)) (input_tokens_per_1k rate))
                               (fmul (fl (of_int outp / 1000))
                                  (output_tokens_per_1k rate)))"
      unfolding calculate_cost_result [OF rate] by simp
  qed
next
  show "\<exists>info. calculate_cost ''gemini-1.5-flash'' 1000 1000 = Inr info
        \<and> total_cost_usd info = fl (375 / 1000000)"
    by (rule flash_example)
qed

lemma fl_pro_input: "fl (125 / 100000) = 5764607523034235 / 4611686018427387904"
  by code_simp

lemma fl_pro_output: "fl (5 / 1000) = 5764607523034235 / 1152921504606846976"
  by code_simp

lemma fl_two_thousand: "fl (of_int (2000 :: int) / 1000) = 2"
  by code_simp

lemma fl_five_hundred: "fl (of_int (500 :: int) / 1000) = 1 / 2"
  by code_simp

lemma fmul_pro_input:
  "fmul 2 (5764607523034235 / 4611686018427387904) = 5764607523034235 / 2305843009213693952"
  by code_simp

lemma fmul_pro_output:
  "fmul (1 / 2) (5764607523034235 / 1152921504606846976)
     = 5764607523034235 / 2305843009213693952"
  by code_simp

lemma fadd_pro:
  "fadd (5764607523034235 / 2305843009213693952) (5764607523034235 / 2305843009213693952)
     = 5764607523034235 / 1152921504606846976"
  by code_simp

lemma round6_pro:
  "round6 (5764607523034235 / 1152921504606846976) = 5764607523034235 / 1152921504606846976"
  by code_simp

theorem calculate_cost_formula_witness:
  "\<exists>info. calculate_cost ''Gemini-1.5-Pro-latest'' 2000 500 = Inr info
     \<and> model_used info = ''gemini-1.5-pro''
     \<and> total_cost_usd info = fl (5 / 1000)"
proof -
  have key: "pricing_key_of ''Gemini-1.5-Pro-latest'' = ''gemini-1.5-pro''"
    by (simp add: pricing_key_of_def lower_def lower_char_def)
  have range: "\<bar>of_int 2000 / 1000 :: rat\<bar> < 2 ^ 1024 - 2 ^ 970
           \<and> \<bar>of_int 500 / 1000 :: rat\<bar> < 2 ^ 1024 - 2 ^ 970"
    by simp
  have rate: "GEMINI_PRICING ''gemini-1.5-pro''
     = Some \<lparr>input_tokens_per_1k = fl (125 / 100000), output_tokens_per_1k = fl (5 / 1000)\<rparr>"
    by (simp add: GEMINI_PRICING_def)
  have total: "round6 (fadd (fmul (fl (of_int (2000 :: int) / 1000)) (fl (125 / 100000)))
                         (fmul (fl (of_int (500 :: int) / 1000)) (fl (5 / 1000))))
                 = fl (5 / 1000)"
    by (simp only: fl_two_thousand fl_five_hundred fl_pro_input fl_pro_output fmul_pro_input
          fmul_pro_output fadd_pro round6_pro)
  from calculate_cost_formula [of "''Gemini-1.5-Pro-latest''" 2000 500]
  obtain r where r: "GEMINI_PRICING (pricing_key_of ''Gemini-1.5-Pro-latest'') = Some r"
    and imp: "\<bar>of_int 2000 / 1000 :: rat\<bar> < 2 ^ 1024 - 2 ^ 970
           \<and> \<bar>of_int 500 / 1000 :: rat\<bar> < 2 ^ 1024 - 2 ^ 970
           \<longrightarrow> (\<exists>info. calculate_cost ''Gemini-1.5-Pro-latest'' 2000 500 = Inr info
                 \<and> model_used info = pricing_key_of ''Gemini-1.5-Pro-latest''
                 \<and> pricing_rate info = r
                 \<and> input_cost_usd info =
                     round6 (fmul (fl (of_int 2000 / 1000)) (input_tokens_per_1k r))
                 \<and> output_cost_usd info =
                     round6 (fmul (fl (of_int 500 / 1000)) (output_tokens_per_1k r))
                 \<and> total_cost_usd info =
                     round6 (fadd (fmul (fl (of_int 2000 / 1000)) (input_tokens_per_1k r))
                               (fmul (fl (of_int 500 / 1000)) (output_tokens_per_1k r))))"
    by (elim conjE exE)
  from r have r_eq: "r = \<lparr>input_tokens_per_1k = fl (125 / 100000),
                             output_tokens_per_1k = fl (5 / 1000)\<rparr>"
    by (simp only: key rate option.inject)
  from imp [THEN mp, OF range] obtain info where
    info: "calculate_cost ''Gemini-1.5-Pro-latest'' 2000 500 = Inr info"
      "model_used info = pricing_key_of ''Gemini-1.5-Pro-latest''"
      "total_cost_usd info =
         round6 (fadd (fmul (fl (of_int 2000 / 1000)) (input_tokens_per_1k r))
                   (fmul (fl (of_int 500 / 1000)) (output_tokens_per_1k r)))"
    by (elim exE conjE)
  from info(3) have "total_cost_usd info = fl (5 / 1000)"
    unfolding r_eq by (simp only: pricing.select_convs total)
  with info(1,2) show ?thesis
    by (simp only: key simp_thms ex_simps exI [of _ info])
qed

lemma empty_ledger_log_raises:
  "session_costs self = [] \<Longrightarrow> log_session_summary self = Inl (KeyError ''total_tokens'')"
  by (simp add: log_session_summary_def get_session_summary_def)

lemma nonempty_ledger_log_returns:
  "session_costs self \<noteq> [] \<Longrightarrow> log_session_summary self = Inr ()"
  by (simp add: log_session_summary_def get_session_summary_def Let_def)




section \<open>Properties of the streaming endpoint\<close>

subsection \<open>The loop processes the records in round-robin order\<close>


lemma round_robin_Nil [simp]: "round_robin [] = []"
  by (simp add: round_robin.simps)

lemma while_readers_Nil [simp]: "while_readers e [] st = st"
  by (simp add: while_readers.simps)

lemma yielded_append: "yielded (xs @ ys) = yielded xs @ yielded ys"
  by (induction xs rule: yielded.induct) simp_all

lemma events_append: "events (xs @ ys) = events xs @ events ys"
  by (induction xs rule: events.induct) simp_all

lemma for_readers_state:
  "snd (snd (for_readers e rs i st)) = process_all e (heads rs) st"
  by (induction e rs i st rule: for_readers.induct)
     (simp_all add: process_all_def heads_def exhausted_def case_prod_beta)

lemma one_pass_state: "snd (one_pass e readers st) = process_all e (heads readers) st"
proof -
  have "snd (one_pass e readers st) = snd (snd (for_readers e readers 0 st))"
    by (simp add: one_pass_def split: prod.splits)
  then show ?thesis by (simp add: for_readers_state)
qed

lemma process_all_append:
  "process_all e (xs @ ys) st = process_all e ys (process_all e xs st)"
  by (simp add: process_all_def)

lemma while_readers_round_robin:
  "while_readers e readers st = process_all e (round_robin readers) st"
proof (induction e readers st rule: while_readers.induct)
  case (1 e readers st)
  show ?case
  proof (cases "readers = []")
    case True
    then show ?thesis by (simp add: process_all_def)
  next
    case False
    have "while_readers e readers st
        = while_readers e (fst (one_pass e readers st)) (snd (one_pass e readers st))"
      using False by (subst while_readers.simps) simp
    also have "\<dots> = process_all e (round_robin (fst (one_pass e readers st)))
                      (snd (one_pass e readers st))"
      using False by (rule "1.IH")
    also have "\<dots> = process_all e (heads readers @ round_robin
                 (map advance (filter (\<lambda>r. \<not> exhausted r) readers))) st"
      by (simp add: one_pass_readers one_pass_state process_all_append)
    also have "\<dots> = process_all e (round_robin readers) st"
      using False by (subst (2) round_robin.simps) simp
    finally show ?thesis .
  qed
qed

lemma log_request_cost_cases:
  "log_request_cost tr stamp txn model_name inp outp req_type =
     (case calculate_cost model_name inp outp of
        Inl err \<Rightarrow> Inl err
      | Inr info \<Rightarrow>
          Inr (cost_info.extend info (cost_entry.fields stamp txn (self_agent_name tr) req_type),
               tr\<lparr>session_costs := session_costs tr
                     @ [cost_info.extend info
                          (cost_entry.fields stamp txn (self_agent_name tr) req_type)],
                  total_session_cost := fadd (total_session_cost tr) (total_cost_usd info)\<rparr>))"
  by (simp add: log_request_cost_def Let_def split: sum.splits)

lemma process_row_count: "row_count (process_row e row p st) = row_count st + 1"
  by (simp add: process_row_def Let_def yield_event_def emit_def log_request_cost_cases
      split: outcome.splits sum.splits prod.splits option.splits)

lemma process_row_first: "first (process_row e row p st) = False"
  by (simp add: process_row_def Let_def yield_event_def emit_def log_request_cost_cases
      split: outcome.splits sum.splits prod.splits option.splits)

lemma yielded_forwarding_check: "yielded (forwarding_check d sev t) = []"
  by (simp add: forwarding_check_def Let_def)

lemma process_row_yielded:
  "yielded (trace (process_row e row p st)) =
     yielded (trace st) @ (if first st then [] else [Comma])
       @ [Event (record_event e (row_count st + 1) (row, p))]"
  by (simp add: process_row_def record_event_def Let_def yield_event_def emit_def
        log_request_cost_cases yielded_append yielded_forwarding_check
      split: outcome.splits sum.splits prod.splits option.splits)



lemma count_of_increment:
  "count_of (increment s' c) s = count_of c s + (if s' = s then 1 else 0)"
  by (cases s; cases s') simp_all

lemma process_row_counts:
  "count_of (counts (process_row e row p st)) s =
     count_of (counts st) s
       + (if success_with (Some s) (record_event e (row_count st + 1) (row, p)) then 1 else 0)"
  by (simp add: process_row_def record_event_def Let_def yield_event_def emit_def
        log_request_cost_cases count_of_increment
      split: outcome.splits sum.splits prod.splits option.splits)

lemma calls_forwarding_check: "filter is_call (forwarding_check d sev t) = []"
  by (simp add: forwarding_check_def Let_def)

lemma process_row_calls:
  "\<exists>new. trace (process_row e row p st) = trace st @ new
     \<and> filter is_call new =
         (case engine e (row_count st + 1) row of
            SessionFails msg \<Rightarrow> [CreateSession]
          | RunFails msg \<Rightarrow> [CreateSession, RunAgent (dumps e row)]
          | Completes parts \<Rightarrow> [CreateSession, RunAgent (dumps e row)])"
  by (simp add: process_row_def Let_def yield_event_def emit_def
        log_request_cost_cases calls_forwarding_check
      split: outcome.splits sum.splits prod.splits option.splits)

lemma process_all_count: "row_count (process_all e recs st) = row_count st + length recs"
  by (induction recs arbitrary: st) (simp_all add: process_all_def process_row_count)

lemma process_all_events:
  "events (yielded (trace (process_all e recs st)))
     = events (yielded (trace st)) @ stream_events e (row_count st) recs"
proof (induction recs arbitrary: st)
  case Nil
  then show ?case by (simp add: process_all_def)
next
  case (Cons rec recs)
  have "process_all e (rec # recs) st = process_all e recs (process_row e (fst rec) (snd rec) st)"
    by (simp add: process_all_def)
  then show ?case
    by (simp add: Cons.IH process_row_yielded process_row_count events_append)
qed

lemma process_all_counts:
  "count_of (counts (process_all e recs st)) s
     = count_of (counts st) s
         + length (filter (success_with (Some s)) (stream_events e (row_count st) recs))"
proof (induction recs arbitrary: st)
  case Nil
  then show ?case by (simp add: process_all_def)
next
  case (Cons rec recs)
  have "process_all e (rec # recs) st = process_all e recs (process_row e (fst rec) (snd rec) st)"
    by (simp add: process_all_def)
  then show ?case
    by (simp add: Cons.IH process_row_counts process_row_count)
qed






subsection \<open>The ledger and the end of the stream\<close>

lemma process_row_ledger:
  "length (session_costs (cost_tracker (process_row e row p st)))
     = length (session_costs (cost_tracker st))
         + (if is_success (record_event e (row_count st + 1) (row, p)) then 1 else 0)"
  by (simp add: process_row_def record_event_def Let_def yield_event_def emit_def
        log_request_cost_cases
      split: outcome.splits sum.splits prod.splits option.splits)

lemma process_all_ledger:
  "length (session_costs (cost_tracker (process_all e recs st)))
     = length (session_costs (cost_tracker st))
         + length (filter is_success (stream_events e (row_count st) recs))"
proof (induction recs arbitrary: st)
  case Nil
  then show ?case by (simp add: process_all_def)
next
  case (Cons rec recs)
  have "process_all e (rec # recs) st = process_all e recs (process_row e (fst rec) (snd rec) st)"
    by (simp add: process_all_def)
  then show ?case
    by (simp add: Cons.IH process_row_ledger process_row_count)
qed

lemma row_generator_opened:
  assumes "open_all e sources = Inr readers"
  shows "row_generator e sources c tracker =
     (let st = process_all e (round_robin readers)
                 \<lparr>row_count = 0, first = True, counts = c, cost_tracker = tracker,
                    trace = [Yield Opening]\<rparr>
      in case log_session_summary (cost_tracker st) of
           Inl err \<Rightarrow> (st, Aborted err)
         | Inr u \<Rightarrow>
             (emit [Yield (Closing (counts st) (get_session_summary (cost_tracker st)))] st,
              Completed))"
  unfolding row_generator_def while_readers_round_robin
  using assms by simp

lemma row_generator_not_opened:
  assumes "open_all e sources = Inl err"
  shows "row_generator e sources c tracker =
     (\<lparr>row_count = 0, first = True, counts = c, cost_tracker = tracker,
        trace = [Yield Opening]\<rparr>, Aborted err)"
  unfolding row_generator_def using assms by simp

lemma row_generator_events:
  assumes "open_all e sources = Inr readers"
  shows "events (yielded (trace (fst (row_generator e sources c tracker))))
           = stream_events e 0 (round_robin readers)"
  by (simp add: row_generator_opened [OF assms] Let_def emit_def yielded_append
        events_append process_all_events split: sum.splits)

lemma row_generator_counts:
  assumes "open_all e sources = Inr readers"
  shows "count_of (counts (fst (row_generator e sources c tracker))) s
           = count_of c s
               + length (filter (success_with (Some s))
                           (stream_events e 0 (round_robin readers)))"
  by (simp add: row_generator_opened [OF assms] Let_def emit_def process_all_counts
      split: sum.splits)

text \<open>
  The stream is completed by the closing chunk unless the ledger is still empty after
  the last record: then the summary log line raises \<^verbatim>\<open>KeyError\<close>.
\<close>

lemma row_generator_ending:
  assumes "open_all e sources = Inr readers"
  shows "snd (row_generator e sources c tracker)
           = (if session_costs tracker = []
                 \<and> filter is_success (stream_events e 0 (round_robin readers)) = []
              then Aborted (KeyError ''total_tokens'') else Completed)"
proof -
  let ?st = "process_all e (round_robin readers)
               \<lparr>row_count = 0, first = True, counts = c, cost_tracker = tracker,
                  trace = [Yield Opening]\<rparr>"
  have len: "length (session_costs (cost_tracker ?st))
      = length (session_costs tracker)
          + length (filter is_success (stream_events e 0 (round_robin readers)))"
    by (simp add: process_all_ledger)
  show ?thesis
  proof (cases "session_costs (cost_tracker ?st) = []")
    case True
    with len have "session_costs tracker = []
        \<and> filter is_success (stream_events e 0 (round_robin readers)) = []"
      by simp
    with True show ?thesis
      by (simp add: row_generator_opened [OF assms] Let_def empty_ledger_log_raises)
  next
    case False
    with len have "\<not> (session_costs tracker = []
        \<and> filter is_success (stream_events e 0 (round_robin readers)) = [])"
      by auto
    with False show ?thesis
      by (simp add: row_generator_opened [OF assms] Let_def nonempty_ledger_log_returns)
  qed
qed

lemma row_generator_completed:
  assumes "row_generator e sources c tracker = (st, Completed)"
  shows "\<exists>readers. open_all e sources = Inr readers
           \<and> st = fst (row_generator e sources c tracker)
           \<and> last (yielded (trace st))
               = Closing (counts st) (get_session_summary (cost_tracker st))"
proof (cases "open_all e sources")
  case (Inl err)
  with assms show ?thesis
    by (simp add: row_generator_not_opened)
next
  case (Inr readers)
  from assms have st: "st = fst (row_generator e sources c tracker)" by simp
  from assms have "last (yielded (trace st))
               = Closing (counts st) (get_session_summary (cost_tracker st))"
    by (auto simp: row_generator_opened [OF Inr] Let_def emit_def yielded_append
          split: sum.splits)
  with Inr st show ?thesis by blast
qed


lemma event_row_record_event: "event_row (record_event e n rec) = n"
  by (simp add: record_event_def Let_def split: outcome.splits sum.splits)

lemma event_source_record_event: "event_source (record_event e n rec) = snd rec"
  by (simp add: record_event_def Let_def split: outcome.splits sum.splits)

lemma demo_open:
  "open_all demo_env [''iot.csv'', ''cameras.csv'']
     = Inr [([[''Device_ID'' \<mapsto> Str ''sensor_7''], [''Device_ID'' \<mapsto> Str ''sensor_8'']],
             ''iot.csv''),
            ([[''Model'' \<mapsto> Str ''cam_1'']], ''cameras.csv'')]"
  by (simp add: demo_env_def)

lemma demo_round_robin:
  "round_robin [([[''Device_ID'' \<mapsto> Str ''sensor_7''], [''Device_ID'' \<mapsto> Str ''sensor_8'']],
                 ''iot.csv''),
                ([[''Model'' \<mapsto> Str ''cam_1'']], ''cameras.csv'')]
     = [([''Device_ID'' \<mapsto> Str ''sensor_7''], ''iot.csv''),
        ([''Model'' \<mapsto> Str ''cam_1''], ''cameras.csv''),
        ([''Device_ID'' \<mapsto> Str ''sensor_8''], ''iot.csv'')]"
  by (simp add: round_robin.simps heads_def exhausted_def)

lemmas evaluate_record =
  record_event_def demo_env_def demo_engine_def row_device_id_def calculate_cost_def
  int_true_div_def estimate_tokens_def Let_def pricing_key_of_def GEMINI_PRICING_def
  lower_def lower_char_def classify_severity_def upper_def upper_char_def strip_def
  is_space_def

lemma demo_event_1:
  "record_event demo_env (Suc 0) ([''Device_ID'' \<mapsto> Str ''sensor_7''], ''iot.csv'')
     = Success 1 ''iot.csv'' (Str ''sensor_7'') ''RISK ASSESSMENT: HIGH'' (Some HIGH)"
  by (simp add: evaluate_record)

lemma demo_event_2:
  "record_event demo_env (Suc (Suc 0)) ([''Model'' \<mapsto> Str ''cam_1''], ''cameras.csv'')
     = Failure 2 ''cameras.csv'' (Str ''cam_1'') ''engine unavailable''"
  by (simp add: evaluate_record)

lemma demo_event_3:
  "record_event demo_env (Suc (Suc (Suc 0))) ([''Device_ID'' \<mapsto> Str ''sensor_8''], ''iot.csv'')
     = Success 3 ''iot.csv'' (Str ''sensor_8'') ''all nominal'' None"
  by (simp add: evaluate_record)

lemma demo_events:
  "stream_events demo_env 0
     [([''Device_ID'' \<mapsto> Str ''sensor_7''], ''iot.csv''),
      ([''Model'' \<mapsto> Str ''cam_1''], ''cameras.csv''),
      ([''Device_ID'' \<mapsto> Str ''sensor_8''], ''iot.csv'')]
   = [Success 1 ''iot.csv'' (Str ''sensor_7'') ''RISK ASSESSMENT: HIGH'' (Some HIGH),
      Failure 2 ''cameras.csv'' (Str ''cam_1'') ''engine unavailable'',
      Success 3 ''iot.csv'' (Str ''sensor_8'') ''all nominal'' None]"
  by (simp add: demo_event_1 demo_event_2 demo_event_3)


lemma event_device_id_record_event:
  "event_device_id (record_event e n rec) = row_device_id (fst rec)"
  by (simp add: record_event_def Let_def split: outcome.splits sum.splits)

subsection \<open>Claims about the stream\<close>



lemma round_robin_3_5:
  "round_robin [([a1, a2, a3], p1), ([b1, b2, b3, b4, b5], p2)]
     = [(a1, p1), (b1, p2), (a2, p1), (b2, p2), (a3, p1), (b3, p2), (b4, p2), (b5, p2)]"
  by (simp add: round_robin.simps heads_def exhausted_def)

text \<open>
  Claim C6. The events of the stream follow the round-robin order of the sources, a
  source leaving the rotation once it has no row left. For two sources with three and
  five records the records numbered 1 to 8 are: first source's first, second source's
  first, first source's second, second source's second, first source's third, second
  source's third, fourth and fifth.
\<close>

theorem round_robin_three_and_five:
  assumes "files e p1 = Some [a1, a2, a3]"
      and "files e p2 = Some [b1, b2, b3, b4, b5]"
  shows "events (yielded (trace (fst (row_generator e [p1, p2] c tracker))))
           = [record_event e 1 (a1, p1), record_event e 2 (b1, p2),
              record_event e 3 (a2, p1), record_event e 4 (b2, p2),
              record_event e 5 (a3, p1), record_event e 6 (b3, p2),
              record_event e 7 (b4, p2), record_event e 8 (b5, p2)]
       \<and> map (\<lambda>ev. (event_row ev, event_source ev, event_device_id ev))
            (events (yielded (trace (fst (row_generator e [p1, p2] c tracker)))))
           = [(1, p1, row_device_id a1), (2, p2, row_device_id b1),
              (3, p1, row_device_id a2), (4, p2, row_device_id b2),
              (5, p1, row_device_id a3), (6, p2, row_device_id b3),
              (7, p2, row_device_id b4), (8, p2, row_device_id b5)]
       \<and> (\<forall>sources readers.
             open_all e sources = Inr readers \<longrightarrow>
             events (yielded (trace (fst (row_generator e sources c tracker))))
               = stream_events e 0 (round_robin readers))"
proof -
  from assms have opened:
    "open_all e [p1, p2] = Inr [([a1, a2, a3], p1), ([b1, b2, b3, b4, b5], p2)]"
    by simp
  have 1: "events (yielded (trace (fst (row_generator e [p1, p2] c tracker))))
           = [record_event e 1 (a1, p1), record_event e 2 (b1, p2),
              record_event e 3 (a2, p1), record_event e 4 (b2, p2),
              record_event e 5 (a3, p1), record_event e 6 (b3, p2),
              record_event e 7 (b4, p2), record_event e 8 (b5, p2)]"
    by (simp add: row_generator_events [OF opened] round_robin_3_5 eval_nat_numeral)
  have 2: "map (\<lambda>ev. (event_row ev, event_source ev, event_device_id ev))
            (events (yielded (trace (fst (row_generator e [p1, p2] c tracker)))))
           = [(1, p1, row_device_id a1), (2, p2, row_device_id b1),
              (3, p1, row_device_id a2), (4, p2, row_device_id b2),
              (5, p1, row_device_id a3), (6, p2, row_device_id b3),
              (7, p2, row_device_id b4), (8, p2, row_device_id b5)]"
    unfolding 1
    by (simp add: event_row_record_event event_source_record_event
          event_device_id_record_event)
  have 3: "\<forall>sources readers.
             open_all e sources = Inr readers \<longrightarrow>
             events (yielded (trace (fst (row_generator e sources c tracker))))
               = stream_events e 0 (round_robin readers)"
    by (simp add: row_generator_events)
  show ?thesis
    by (intro conjI) (rule 1, rule 2, rule 3)
qed

theorem round_robin_three_and_five_witness:
  "files two_sources_env ''first.csv''
     = Some [device_row ''a0'', device_row ''a1'', device_row ''a2'']
   \<and> files two_sources_env ''second.csv''
     = Some [device_row ''b0'', device_row ''b1'', device_row ''b2'', device_row ''b3'',
             device_row ''b4'']
   \<and> map (\<lambda>ev. (event_row ev, event_source ev, event_device_id ev))
        (events (yielded (trace (fst (row_generator two_sources_env
                                        [''first.csv'', ''second.csv''] zero_counts
                                        (new_tracker ''log_analysis_agent''))))))
     = [(1, ''first.csv'', Str ''a0''), (2, ''second.csv'', Str ''b0''),
        (3, ''first.csv'', Str ''a1''), (4, ''second.csv'', Str ''b1''),
        (5, ''first.csv'', Str ''a2''), (6, ''second.csv'', Str ''b2''),
        (7, ''second.csv'', Str ''b3''), (8, ''second.csv'', Str ''b4'')]"
proof -
  have f1: "files two_sources_env ''first.csv''
     = Some [device_row ''a0'', device_row ''a1'', device_row ''a2'']"
    by (simp add: two_sources_env_def)
  have f2: "files two_sources_env ''second.csv''
     = Some [device_row ''b0'', device_row ''b1'', device_row ''b2'', device_row ''b3'',
             device_row ''b4'']"
    by (simp add: two_sources_env_def)
  have dev: "row_device_id (device_row d) = Str d" for d
    by (simp add: row_device_id_def device_row_def)
  have "map (\<lambda>ev. (event_row ev, event_source ev, event_device_id ev))
        (events (yielded (trace (fst (row_generator two_sources_env
                                        [''first.csv'', ''second.csv''] zero_counts
                                        (new_tracker ''log_analysis_agent''))))))
     = [(1, ''first.csv'', row_device_id (device_row ''a0'')),
        (2, ''second.csv'', row_device_id (device_row ''b0'')),
        (3, ''first.csv'', row_device_id (device_row ''a1'')),
        (4, ''second.csv'', row_device_id (device_row ''b1'')),
        (5, ''first.csv'', row_device_id (device_row ''a2'')),
        (6, ''second.csv'', row_device_id (device_row ''b2'')),
        (7, ''second.csv'', row_device_id (device_row ''b3'')),
        (8, ''second.csv'', row_device_id (device_row ''b4''))]"
    using round_robin_three_and_five
            [OF f1 f2, where c = zero_counts and tracker = "new_tracker ''log_analysis_agent''"]
    by (elim conjE)
  then have "map (\<lambda>ev. (event_row ev, event_source ev, event_device_id ev))
        (events (yielded (trace (fst (row_generator two_sources_env
                                        [''first.csv'', ''second.csv''] zero_counts
                                        (new_tracker ''log_analysis_agent''))))))
     = [(1, ''first.csv'', Str ''a0''), (2, ''second.csv'', Str ''b0''),
        (3, ''first.csv'', Str ''a1''), (4, ''second.csv'', Str ''b1''),
        (5, ''first.csv'', Str ''a2''), (6, ''second.csv'', Str ''b2''),
        (7, ''second.csv'', Str ''b3''), (8, ''second.csv'', Str ''b4'')]"
    by (simp only: dev)
  with f1 f2 show ?thesis by (intro conjI)
qed


lemma count_non_null:
  "length (filter (\<lambda>ev. is_success ev \<and> \<not> success_with None ev) evs)
     = length (filter (success_with (Some LOW)) evs)
       + length (filter (success_with (Some MEDIUM)) evs)
       + length (filter (success_with (Some HIGH)) evs)
       + length (filter (success_with (Some CRITICAL)) evs)"
proof (induction evs)
  case Nil
  then show ?case by simp
next
  case (Cons ev evs)
  show ?case
  proof (cases ev)
    case (Success n source_path device_id response_text sev)
    show ?thesis
    proof (cases sev)
      case None
      with Success Cons.IH show ?thesis by simp
    next
      case (Some s)
      with Success Cons.IH show ?thesis by (cases s) simp_all
    qed
  next
    case (Failure n source_path device_id msg)
    with Cons.IH show ?thesis by simp
  qed
qed

lemma count_non_null_le:
  "length (filter (\<lambda>ev. is_success ev \<and> \<not> success_with None ev) evs)
     \<le> length (filter is_success evs)"
  by (induction evs) simp_all

lemma sum_counts:
  "count_LOW c + count_MEDIUM c + count_HIGH c + count_CRITICAL c
     = count_of c LOW + count_of c MEDIUM + count_of c HIGH + count_of c CRITICAL"
  by simp

lemma zero_count:
  "count_of \<lparr>count_LOW = 0, count_MEDIUM = 0, count_HIGH = 0, count_CRITICAL = 0\<rparr> s = 0"
  by (cases s) simp_all

lemma endpoint_streaming:
  assumes "stream_csv_endpoint e tracker body = StreamingResponse run"
  shows "\<exists>sources. run = row_generator e sources
           \<lparr>count_LOW = 0, count_MEDIUM = 0, count_HIGH = 0, count_CRITICAL = 0\<rparr> tracker"
  using assms
  by (auto simp: stream_csv_endpoint_def split: request_body.splits option.splits)

lemma demo_response:
  "stream_csv_endpoint demo_env (new_tracker ''log_analysis_agent'')
     (Fields (PathList [''iot.csv'', ''cameras.csv'']) OtherValue)
   = StreamingResponse
       (fst (row_generator demo_env [''iot.csv'', ''cameras.csv''] zero_counts
               (new_tracker ''log_analysis_agent'')),
        Completed)"
proof -
  have "snd (row_generator demo_env [''iot.csv'', ''cameras.csv''] zero_counts
               (new_tracker ''log_analysis_agent'')) = Completed"
    unfolding row_generator_ending [OF demo_open] demo_round_robin demo_events
    by simp
  then have "row_generator demo_env [''iot.csv'', ''cameras.csv''] zero_counts
               (new_tracker ''log_analysis_agent'')
      = (fst (row_generator demo_env [''iot.csv'', ''cameras.csv''] zero_counts
               (new_tracker ''log_analysis_agent'')), Completed)"
    by (metis prod.collapse)
  then show ?thesis
    by (simp add: stream_csv_endpoint_def zero_counts_def)
qed

lemma demo_stream_events:
  "events (yielded (trace (fst (row_generator demo_env [''iot.csv'', ''cameras.csv'']
                                  zero_counts (new_tracker ''log_analysis_agent'')))))
     = [Success 1 ''iot.csv'' (Str ''sensor_7'') ''RISK ASSESSMENT: HIGH'' (Some HIGH),
        Failure 2 ''cameras.csv'' (Str ''cam_1'') ''engine unavailable'',
        Success 3 ''iot.csv'' (Str ''sensor_8'') ''all nominal'' None]"
  by (simp only: row_generator_events [OF demo_open] demo_round_robin demo_events)

lemma demo_counts:
  "count_of (counts (fst (row_generator demo_env [''iot.csv'', ''cameras.csv''] zero_counts
                            (new_tracker ''log_analysis_agent'')))) s
     = (if s = HIGH then 1 else 0)"
  unfolding row_generator_counts [OF demo_open] demo_round_robin demo_events zero_counts_def
    zero_count
  by (cases s) simp_all

text \<open>
  Claim C10. In a completed stream each of the four severity counts of the closing
  chunk is the number of success events with exactly that severity. A success event
  with severity \<open>None\<close> is in the results and in no count: the sum of the counts is the
  number of success events with a severity, at most the number of success events, and
  in some streams less.
\<close>

theorem severity_counts_match_events:
  assumes "stream_csv_endpoint e tracker body = StreamingResponse (st, Completed)"
  shows "(\<forall>s. count_of (counts st) s
              = length (filter (success_with (Some s)) (events (yielded (trace st)))))
       \<and> last (yielded (trace st))
           = Closing (counts st) (get_session_summary (cost_tracker st))
       \<and> count_LOW (counts st) + count_MEDIUM (counts st) + count_HIGH (counts st)
           + count_CRITICAL (counts st)
           = length (filter (\<lambda>ev. is_success ev \<and> \<not> success_with None ev)
                       (events (yielded (trace st))))
       \<and> count_LOW (counts st) + count_MEDIUM (counts st) + count_HIGH (counts st)
           + count_CRITICAL (counts st)
           \<le> length (filter is_success (events (yielded (trace st))))
       \<and> (\<exists>e' tracker' body' st'.
             stream_csv_endpoint e' tracker' body' = StreamingResponse (st', Completed)
           \<and> count_LOW (counts st') + count_MEDIUM (counts st') + count_HIGH (counts st')
               + count_CRITICAL (counts st')
               < length (filter is_success (events (yielded (trace st')))))"
proof -
  from endpoint_streaming [OF assms] obtain sources where
    run: "row_generator e sources
            \<lparr>count_LOW = 0, count_MEDIUM = 0, count_HIGH = 0, count_CRITICAL = 0\<rparr> tracker
          = (st, Completed)"
    by auto
  from row_generator_completed [OF run] obtain readers where
    opened: "open_all e sources = Inr readers"
    and st: "st = fst (row_generator e sources
            \<lparr>count_LOW = 0, count_MEDIUM = 0, count_HIGH = 0, count_CRITICAL = 0\<rparr> tracker)"
    and closing: "last (yielded (trace st))
           = Closing (counts st) (get_session_summary (cost_tracker st))"
    by blast
  have ev: "events (yielded (trace st)) = stream_events e 0 (round_robin readers)"
    unfolding st by (rule row_generator_events [OF opened])
  have cnt: "count_of (counts st) s
              = length (filter (success_with (Some s)) (events (yielded (trace st))))" for s
    unfolding ev unfolding st
    by (simp add: row_generator_counts [OF opened] zero_count)
  then have 1: "\<forall>s. count_of (counts st) s
              = length (filter (success_with (Some s)) (events (yielded (trace st))))"
    by blast
  have 3: "count_LOW (counts st) + count_MEDIUM (counts st) + count_HIGH (counts st)
           + count_CRITICAL (counts st)
           = length (filter (\<lambda>ev. is_success ev \<and> \<not> success_with None ev)
                       (events (yielded (trace st))))"
    unfolding sum_counts cnt by (simp only: count_non_null)
  have 4: "count_LOW (counts st) + count_MEDIUM (counts st) + count_HIGH (counts st)
           + count_CRITICAL (counts st)
           \<le> length (filter is_success (events (yielded (trace st))))"
    unfolding 3 by (rule count_non_null_le)
  let ?st' = "fst (row_generator demo_env [''iot.csv'', ''cameras.csv''] zero_counts
                     (new_tracker ''log_analysis_agent''))"
  have "count_LOW (counts ?st') + count_MEDIUM (counts ?st') + count_HIGH (counts ?st')
               + count_CRITICAL (counts ?st')
               < length (filter is_success (events (yielded (trace ?st'))))"
    unfolding sum_counts demo_counts demo_stream_events by simp
  with demo_response have 5: "\<exists>e' tracker' body' st'.
             stream_csv_endpoint e' tracker' body' = StreamingResponse (st', Completed)
           \<and> count_LOW (counts st') + count_MEDIUM (counts st') + count_HIGH (counts st')
               + count_CRITICAL (counts st')
               < length (filter is_success (events (yielded (trace st'))))"
    by blast
  show ?thesis
    by (intro conjI) (rule 1, rule closing, rule 3, rule 4, rule 5)
qed

theorem severity_counts_match_events_witness:
  "\<exists>st. stream_csv_endpoint demo_env (new_tracker ''log_analysis_agent'')
           (Fields (PathList [''iot.csv'', ''cameras.csv'']) OtherValue)
         = StreamingResponse (st, Completed)
       \<and> count_of (counts st) LOW = 0 \<and> count_of (counts st) MEDIUM = 0
       \<and> count_of (counts st) HIGH = 1 \<and> count_of (counts st) CRITICAL = 0
       \<and> length (filter is_success (events (yielded (trace st)))) = 2"
proof -
  let ?st = "fst (row_generator demo_env [''iot.csv'', ''cameras.csv''] zero_counts
                    (new_tracker ''log_analysis_agent''))"
  have "\<forall>s. count_of (counts ?st) s
              = length (filter (success_with (Some s)) (events (yielded (trace ?st))))"
    using severity_counts_match_events [OF demo_response] by (elim conjE)
  then have cnt: "count_of (counts ?st) s
              = length (filter (success_with (Some s))
                  [Success 1 ''iot.csv'' (Str ''sensor_7'') ''RISK ASSESSMENT: HIGH'' (Some HIGH),
                   Failure 2 ''cameras.csv'' (Str ''cam_1'') ''engine unavailable'',
                   Success 3 ''iot.csv'' (Str ''sensor_8'') ''all nominal'' None])" for s
    unfolding demo_stream_events by blast
  have "count_of (counts ?st) LOW = 0 \<and> count_of (counts ?st) MEDIUM = 0
       \<and> count_of (counts ?st) HIGH = 1 \<and> count_of (counts ?st) CRITICAL = 0
       \<and> length (filter is_success (events (yielded (trace ?st)))) = 2"
    unfolding cnt demo_stream_events by simp
  with demo_response show ?thesis by blast
qed


subsection \<open>The forwarding check\<close>

text \<open>
  Everything one record adds to the trace: the two calls to the agent runner, then,
  for a response that was priced, the lines of the forwarding check at the severity
  classified from that response, then the record's event.
\<close>

lemma process_row_trace:
  "trace (process_row e row source_path st) =
     trace st
     @ (case engine e (row_count st + 1) row of
          SessionFails msg \<Rightarrow> [CreateSession]
        | RunFails msg \<Rightarrow> [CreateSession, RunAgent (dumps e row)]
        | Completes parts \<Rightarrow>
            [CreateSession, RunAgent (dumps e row)]
            @ (case calculate_cost ''gemini-1.5-flash'' (estimate_tokens (dumps e row))
                      (estimate_tokens (fst (collect_parts parts ([], 0, 0)))) of
                 Inl err \<Rightarrow> []
               | Inr info \<Rightarrow>
                   forwarding_check (row_device_id row)
                     (classify_severity (fst (collect_parts parts ([], 0, 0))))
                     (fst (collect_parts parts ([], 0, 0)))))
     @ (if first st then [] else [Yield Comma])
     @ [Yield (Event (record_event e (row_count st + 1) (row, source_path)))]"
  by (simp add: process_row_def record_event_def Let_def yield_event_def emit_def
        log_request_cost_cases
      split: outcome.splits sum.splits prod.splits option.splits)

lemma forwarding_check_lines:
  "forwarding_check device_id sev response_text =
     (if sev \<in> {Some MEDIUM, Some HIGH, Some CRITICAL} then
        [Log INFO (''A2A sub-agent consultation required: '' @ str_of device_id @ '' (''
                   @ keyword (the sev) @ '' severity, schema-independent)''),
         Log INFO (''A2A FORWARDING (Agent 1): Instructing LLM to consult diagnosis_agent for ''
                   @ str_of device_id)]
        @ (if list_ex (\<lambda>indicator. str_in indicator response_text)
                [''diagnosis_agent:'', ''Remediation Status:'', ''Device Type:'',
                 ''Actions Taken:'', ''Results Summary:'']
           then
             [Log INFO (''A2A sub-agent consultation detected: diagnosis_agent response ''
                        @ ''embedded for device '' @ str_of device_id)]
           else
             [Log WARNING (''A2A sub-agent consultation not detected in final response ''
                           @ ''for device '' @ str_of device_id
                           @ ''. Check agent prompts and sub-agent availability.''),
              Log WARNING (''Response preview for debugging: '' @ take 300 response_text
                           @ ''...'')])
      else [])"
  unfolding forwarding_check_def a2a_indicators_def Let_def
  by simp

text \<open>
  Claim C1 says that the stage issues one forwarding call for a record of severity
  MEDIUM, HIGH or CRITICAL. The code after the classification (lines 363-389) issues no
  call at all; for a record classified HIGH it writes four log lines.
\<close>

theorem no_forwarding_call_counterexample:
  "classify_severity ''RISK ASSESSMENT: HIGH'' = Some HIGH
   \<and> forwarding_check (Str ''sensor_7'') (Some HIGH) ''RISK ASSESSMENT: HIGH''
     = [Log INFO (''A2A sub-agent consultation required: sensor_7 ''
                  @ ''(HIGH severity, schema-independent)''),
        Log INFO (''A2A FORWARDING (Agent 1): Instructing LLM to consult diagnosis_agent ''
                  @ ''for sensor_7''),
        Log WARNING (''A2A sub-agent consultation not detected in final response for ''
                     @ ''device sensor_7. Check agent prompts and sub-agent availability.''),
        Log WARNING ''Response preview for debugging: RISK ASSESSMENT: HIGH...'']
   \<and> length (filter is_call
               (forwarding_check (Str ''sensor_7'') (Some HIGH) ''RISK ASSESSMENT: HIGH'')) = 0"
  by (simp add: classify_severity_def strip_def is_space_def upper_def upper_char_def
        forwarding_check_def a2a_indicators_def)

text \<open>
  Claim C1, amended. For every processed record the stage's own code issues no
  forwarding call: the only calls it makes for a record are the creation of the
  session and one run of the reasoning engine, both before the severity is classified
  and whatever the severity turns out to be. Once the response of a record is priced,
  the stage classifies it and, if and only if the classified severity is MEDIUM, HIGH
  or CRITICAL, logs that a consultation of the diagnosis agent is required and that the
  engine is instructed to forward, and then logs either that a consultation was
  detected (the response text contains one of the five indicator strings
  "diagnosis_agent:", "Remediation Status:", "Device Type:", "Actions Taken:",
  "Results Summary:") or, in two warnings, that none was detected; when the classified
  severity is LOW or \<open>None\<close> it logs nothing of this.
\<close>

theorem forwarding_check_logs_only:
  "forwarding_check device_id sev response_text =
     (if sev \<in> {Some MEDIUM, Some HIGH, Some CRITICAL} then
        [Log INFO (''A2A sub-agent consultation required: '' @ str_of device_id @ '' (''
                   @ keyword (the sev) @ '' severity, schema-independent)''),
         Log INFO (''A2A FORWARDING (Agent 1): Instructing LLM to consult diagnosis_agent for ''
                   @ str_of device_id)]
        @ (if list_ex (\<lambda>indicator. str_in indicator response_text)
                [''diagnosis_agent:'', ''Remediation Status:'', ''Device Type:'',
                 ''Actions Taken:'', ''Results Summary:'']
           then
             [Log INFO (''A2A sub-agent consultation detected: diagnosis_agent response ''
                        @ ''embedded for device '' @ str_of device_id)]
           else
             [Log WARNING (''A2A sub-agent consultation not detected in final response ''
                           @ ''for device '' @ str_of device_id
                           @ ''. Check agent prompts and sub-agent availability.''),
              Log WARNING (''Response preview for debugging: '' @ take 300 response_text
                           @ ''...'')])
      else [])
   \<and> filter is_call (forwarding_check device_id sev response_text) = []
   \<and> trace (process_row e row source_path st) =
       trace st
       @ (case engine e (row_count st + 1) row of
            SessionFails msg \<Rightarrow> [CreateSession]
          | RunFails msg \<Rightarrow> [CreateSession, RunAgent (dumps e row)]
          | Completes parts \<Rightarrow>
              [CreateSession, RunAgent (dumps e row)]
              @ (case calculate_cost ''gemini-1.5-flash'' (estimate_tokens (dumps e row))
                        (estimate_tokens (fst (collect_parts parts ([], 0, 0)))) of
                   Inl err \<Rightarrow> []
                 | Inr info \<Rightarrow>
                     forwarding_check (row_device_id row)
                       (classify_severity (fst (collect_parts parts ([], 0, 0))))
                       (fst (collect_parts parts ([], 0, 0)))))
       @ (if first st then [] else [Yield Comma])
       @ [Yield (Event (record_event e (row_count st + 1) (row, source_path)))]"
  by (intro conjI) (rule forwarding_check_lines, rule calls_forwarding_check,
      rule process_row_trace)

theorem forwarding_check_logs_only_witness:
  "forwarding_check (Str ''cam_1'') (Some CRITICAL) ''diagnosis_agent: replace the lens''
     = [Log INFO (''A2A sub-agent consultation required: cam_1 ''
                  @ ''(CRITICAL severity, schema-independent)''),
        Log INFO (''A2A FORWARDING (Agent 1): Instructing LLM to consult diagnosis_agent ''
                  @ ''for cam_1''),
        Log INFO (''A2A sub-agent consultation detected: diagnosis_agent response ''
                  @ ''embedded for device cam_1'')]
   \<and> filter is_call
       (forwarding_check (Str ''cam_1'') (Some CRITICAL) ''diagnosis_agent: replace the lens'')
     = []
   \<and> forwarding_check (Str ''cam_1'') (Some LOW) ''Status: low'' = []
   \<and> trace (process_row demo_env [''Device_ID'' \<mapsto> Str ''sensor_7''] ''iot.csv''
              \<lparr>row_count = 0, first = True, counts = zero_counts,
                 cost_tracker = new_tracker ''log_analysis_agent'',
                 trace = [Yield Opening]\<rparr>)
     = [Yield Opening, CreateSession, RunAgent ''record'',
        Log INFO (''A2A sub-agent consultation required: sensor_7 ''
                  @ ''(HIGH severity, schema-independent)''),
        Log INFO (''A2A FORWARDING (Agent 1): Instructing LLM to consult diagnosis_agent ''
                  @ ''for sensor_7''),
        Log WARNING (''A2A sub-agent consultation not detected in final response for ''
                     @ ''device sensor_7. Check agent prompts and sub-agent availability.''),
        Log WARNING ''Response preview for debugging: RISK ASSESSMENT: HIGH...'',
        Yield (Event (Success 1 ''iot.csv'' (Str ''sensor_7'') ''RISK ASSESSMENT: HIGH''
                        (Some HIGH)))]"
proof -
  let ?st = "\<lparr>row_count = 0, first = True, counts = zero_counts,
               cost_tracker = new_tracker ''log_analysis_agent'', trace = [Yield Opening]\<rparr>"
  note critical = forwarding_check_logs_only
    [of "Str ''cam_1''" "Some CRITICAL" "''diagnosis_agent: replace the lens''" demo_env
        "[''Device_ID'' \<mapsto> Str ''sensor_7'']" "''iot.csv''" ?st]
  note low = forwarding_check_logs_only
    [of "Str ''cam_1''" "Some LOW" "''Status: low''" demo_env
        "[''Device_ID'' \<mapsto> Str ''sensor_7'']" "''iot.csv''" ?st]
  have 1: "forwarding_check (Str ''cam_1'') (Some CRITICAL) ''diagnosis_agent: replace the lens''
     = [Log INFO (''A2A sub-agent consultation required: cam_1 ''
                  @ ''(CRITICAL severity, schema-independent)''),
        Log INFO (''A2A FORWARDING (Agent 1): Instructing LLM to consult diagnosis_agent ''
                  @ ''for cam_1''),
        Log INFO (''A2A sub-agent consultation detected: diagnosis_agent response ''
                  @ ''embedded for device cam_1'')]"
    using critical [THEN conjunct1] by simp
  note 2 = critical [THEN conjunct2, THEN conjunct1]
  have 3: "forwarding_check (Str ''cam_1'') (Some LOW) ''Status: low'' = []"
    using low [THEN conjunct1] by simp
  have 4: "trace (process_row demo_env [''Device_ID'' \<mapsto> Str ''sensor_7''] ''iot.csv'' ?st)
     = [Yield Opening, CreateSession, RunAgent ''record'',
        Log INFO (''A2A sub-agent consultation required: sensor_7 ''
                  @ ''(HIGH severity, schema-independent)''),
        Log INFO (''A2A FORWARDING (Agent 1): Instructing LLM to consult diagnosis_agent ''
                  @ ''for sensor_7''),
        Log WARNING (''A2A sub-agent consultation not detected in final response for ''
                     @ ''device sensor_7. Check agent prompts and sub-agent availability.''),
        Log WARNING ''Response preview for debugging: RISK ASSESSMENT: HIGH...'',
        Yield (Event (Success 1 ''iot.csv'' (Str ''sensor_7'') ''RISK ASSESSMENT: HIGH''
                        (Some HIGH)))]"
    using critical [THEN conjunct2, THEN conjunct2]
    by (simp add: evaluate_record forwarding_check_def a2a_indicators_def)
  from 1 2 3 4 show ?thesis by (intro conjI)
qed

subsection \<open>Sources that cannot be opened\<close>

text \<open>
  The endpoint answers with an error document, and starts no stream, when the body
  cannot be read and when no source is declared.
\<close>

lemma unreadable_body_reported:
  "stream_csv_endpoint e tracker (Unreadable msg) = JSONResponse msg 500"
  by (simp add: stream_csv_endpoint_def)

lemma undeclared_source_rejected:
  assumes "\<forall>p ps. csv_paths \<noteq> PathList (p # ps)"
      and "\<forall>c cs. csv_path \<noteq> PathString (c # cs)"
  shows "stream_csv_endpoint e tracker (Fields csv_paths csv_path)
           = JSONResponse ''csv_path or csv_paths is required'' 400"
proof -
  from assms have "normalize_sources csv_paths csv_path = None"
    by (cases "(csv_paths, csv_path)" rule: normalize_sources.cases) simp_all
  then show ?thesis
    by (simp add: stream_csv_endpoint_def)
qed

text \<open>
  A declared source is opened by the generator, after its opening chunk. When opening
  fails, the response is the stream already begun, which stops after that chunk.
\<close>

lemma open_failure_aborts_stream:
  assumes "open_all e (p # ps) = Inl err"
  shows "stream_csv_endpoint e tracker (Fields (PathList (p # ps)) csv_path)
           = StreamingResponse
               (\<lparr>row_count = 0, first = True,
                  counts = \<lparr>count_LOW = 0, count_MEDIUM = 0, count_HIGH = 0,
                             count_CRITICAL = 0\<rparr>,
                  cost_tracker = tracker,
                  trace = [Yield Opening]\<rparr>,
                Aborted err)"
  unfolding stream_csv_endpoint_def
  by (simp add: row_generator_not_opened [OF assms])

text \<open>
  Claim C3 says that a source that cannot be opened makes the request fail fast, with
  an error document and a client-error status, before any stream is started. The
  endpoint has the handler for it, around the creation of the response, but the
  sources are opened later, inside the generator and after its first chunk. For a
  request naming the one source \<^verbatim>\<open>missing.csv\<close>, which cannot be opened, the response
  is the streaming response: it yields the opening chunk and then ends with the
  exception of \<^verbatim>\<open>open\<close>; no error document is produced.
\<close>

theorem unopenable_source_aborts_stream:
  "stream_csv_endpoint demo_env (new_tracker ''log_analysis_agent'')
     (Fields OtherValue (PathString ''missing.csv''))
   = StreamingResponse
       (\<lparr>row_count = 0, first = True,
          counts = \<lparr>count_LOW = 0, count_MEDIUM = 0, count_HIGH = 0, count_CRITICAL = 0\<rparr>,
          cost_tracker = new_tracker ''log_analysis_agent'',
          trace = [Yield Opening]\<rparr>,
        Aborted (OpenFailed ''missing.csv''))"
  by (simp add: stream_csv_endpoint_def row_generator_def demo_env_def)

end
